theory Spec2Isabelle
  imports Complex_Main
begin

section \<open>Numbers and vectors\<close>

text \<open>
  The scene code of \<^verbatim>\<open>ProjectGallery3D.jsx\<close> computes with JavaScript numbers.
  They are modelled as real numbers: every arithmetic operation is the exact one, so
  rounding is not represented. The one place of the source where a non-finite value
  can arise from finite operands is the division in \<^verbatim>\<open>roadSegments\<close>; it is
  modelled with an explicit not-a-number value further below.
\<close>

text \<open>\<^verbatim>\<open>Math.hypot(a, b)\<close>.\<close>

definition hypot :: "real \<Rightarrow> real \<Rightarrow> real" where
  "hypot a b = sqrt (a * a + b * b)"

text \<open>
  \<^verbatim>\<open>THREE.Vector3\<close>. The fields are \<^verbatim>\<open>x\<close>, \<^verbatim>\<open>y\<close>, \<^verbatim>\<open>z\<close> in the source; they
  carry a prefix here because the plain letters are wanted as variables.
\<close>

record Vector3 =
  vx :: real
  vy :: real
  vz :: real

text \<open>\<^verbatim>\<open>p.clone().addScaledVector(v, s)\<close>.\<close>

definition addScaledVector :: "Vector3 \<Rightarrow> Vector3 \<Rightarrow> real \<Rightarrow> Vector3" where
  "addScaledVector p v s =
     \<lparr>vx = vx p + vx v * s, vy = vy p + vy v * s, vz = vz p + vz v * s\<rparr>"

text \<open>\<^verbatim>\<open>p.clone().add(v)\<close> and \<^verbatim>\<open>v.clone().multiplyScalar(s)\<close>.\<close>

definition add :: "Vector3 \<Rightarrow> Vector3 \<Rightarrow> Vector3" where
  "add p v = \<lparr>vx = vx p + vx v, vy = vy p + vy v, vz = vz p + vz v\<rparr>"

definition multiplyScalar :: "Vector3 \<Rightarrow> real \<Rightarrow> Vector3" where
  "multiplyScalar v s = \<lparr>vx = vx v * s, vy = vy v * s, vz = vz v * s\<rparr>"

text \<open>
  \<^verbatim>\<open>v.applyQuaternion(carRef.current.quaternion)\<close>. The car group is created with
  the default rotation, and the only component the controller ever writes is
  \<^verbatim>\<open>rotation.y\<close>; the rendering library keeps the quaternion equal to the rotation,
  so the quaternion is the rotation about the vertical axis by the angle last written.
\<close>

definition applyQuaternion :: "Vector3 \<Rightarrow> real \<Rightarrow> Vector3" where
  "applyQuaternion v angle =
     \<lparr>vx = vx v * cos angle + vz v * sin angle,
      vy = vy v,
      vz = vz v * cos angle - vx v * sin angle\<rparr>"

section \<open>CarControls: the per-frame drive update\<close>

text \<open>The key table \<^verbatim>\<open>keys.current\<close> of \<^verbatim>\<open>CarControls\<close>.\<close>

record Keys =
  key_w :: bool
  key_a :: bool
  key_s :: bool
  key_d :: bool
  ArrowUp :: bool
  ArrowLeft :: bool
  ArrowDown :: bool
  ArrowRight :: bool
  key_c :: bool

text \<open>The scene object behind \<^verbatim>\<open>carRef.current\<close>: its position and \<^verbatim>\<open>rotation.y\<close>.\<close>

record Object3D =
  position :: Vector3
  rotation_y :: real

text \<open>
  Everything the frame callback of \<^verbatim>\<open>CarControls\<close> reads and writes: the car
  (absent while the ref is not attached), the refs \<^verbatim>\<open>velocity\<close> and \<^verbatim>\<open>yaw\<close>, and
  the camera (its position, and the point \<^verbatim>\<open>camera.lookAt\<close> last aimed it at).
\<close>

record CarState =
  carRef :: "Object3D option"
  velocity :: real
  yaw :: real
  camera_position :: Vector3
  camera_lookAt :: Vector3

definition carRadius :: real where
  "carRadius = 1.0"

definition obstacleRadius :: real where
  "obstacleRadius = 2.0"

text \<open>Acceleration / braking (the first \<^verbatim>\<open>if\<close> chain of the callback).\<close>

definition longitudinal :: "Keys \<Rightarrow> real \<Rightarrow> real \<Rightarrow> real" where
  "longitudinal keys delta v =
     (if key_w keys \<or> ArrowUp keys then min 20 (v + delta * 10)
      else if key_s keys \<or> ArrowDown keys then max (- 10) (v - delta * 10)
      else v * 0.98)"

text \<open>Steering: two independent \<^verbatim>\<open>if\<close>s under the speed test.\<close>

definition steering :: "Keys \<Rightarrow> real \<Rightarrow> real \<Rightarrow> real \<Rightarrow> real" where
  "steering keys delta v yw =
     (if \<bar>v\<bar> > 0.5 then
        (let yw1 = (if key_a keys \<or> ArrowLeft keys then yw + delta * 1.2 else yw)
         in (if key_d keys \<or> ArrowRight keys then yw1 - delta * 1.2 else yw1))
      else yw)"

text \<open>The forward direction and the proposed new position.\<close>

definition forward :: "real \<Rightarrow> Vector3" where
  "forward yw = applyQuaternion \<lparr>vx = 0, vy = 0, vz = - 1\<rparr> yw"

definition proposed :: "Keys \<Rightarrow> real \<Rightarrow> CarState \<Rightarrow> Object3D \<Rightarrow> Vector3" where
  "proposed keys delta st car =
     (let v1 = longitudinal keys delta (velocity st);
          yaw1 = steering keys delta v1 (yaw st)
      in addScaledVector (position car) (forward yaw1) (v1 * delta))"

text \<open>The obstacle loop: the first obstacle that is too close ends it.\<close>

fun hitsObstacle :: "Vector3 \<Rightarrow> (real \<times> real) list \<Rightarrow> bool" where
  "hitsObstacle p [] = False"
| "hitsObstacle p ((ox, oz) # obstacleCenters) =
     (if hypot (vx p - ox) (vz p - oz) < carRadius + obstacleRadius then True
      else hitsObstacle p obstacleCenters)"

definition outOfBounds :: "real \<Rightarrow> Vector3 \<Rightarrow> bool" where
  "outOfBounds planeRadius p \<longleftrightarrow>
     vx p < - planeRadius + carRadius \<or> vx p > planeRadius - carRadius \<or>
     vz p < - planeRadius + carRadius \<or> vz p > planeRadius - carRadius"

text \<open>
  The callback given to \<^verbatim>\<open>useFrame\<close> in \<^verbatim>\<open>CarControls\<close>, as a function from the
  state before the frame to the state after it. Its parameters are what the callback
  reads and does not write: the key table, the component's props and the frame's
  \<^verbatim>\<open>delta\<close>.
\<close>

definition useFrame ::
  "Keys \<Rightarrow> (real \<times> real) list \<Rightarrow> real \<Rightarrow> bool \<Rightarrow> real \<Rightarrow> CarState \<Rightarrow> CarState" where
  "useFrame keys obstacleCenters planeRadius followCam delta st =
     (case carRef st of
        None \<Rightarrow> st
      | Some car \<Rightarrow>
          (let v1 = longitudinal keys delta (velocity st);
               yaw1 = steering keys delta v1 (yaw st);
               car1 = car\<lparr>rotation_y := yaw1\<rparr>;
               fwd = forward yaw1;
               prop = addScaledVector (position car1) fwd (v1 * delta);
               collision0 = hitsObstacle prop obstacleCenters;
               collision = (if outOfBounds planeRadius prop then True else collision0);
               car2 = (if \<not> collision then car1\<lparr>position := prop\<rparr> else car1);
               v2 = (if \<not> collision then v1 else 0);
               st2 = st\<lparr>carRef := Some car2, velocity := v2, yaw := yaw1\<rparr>
           in if followCam then
                (let offset = applyQuaternion \<lparr>vx = 0, vy = 2.5, vz = 6\<rparr> yaw1;
                     camPos = add (position car2) offset;
                     lookTarget =
                       add (add (position car2) (multiplyScalar fwd 10))
                         \<lparr>vx = 0, vy = 1, vz = 0\<rparr>
                 in st2\<lparr>camera_position := camPos, camera_lookAt := lookTarget\<rparr>)
              else st2))"

text \<open>
  The value of \<^verbatim>\<open>collision\<close> when the frame reaches its last \<^verbatim>\<open>if\<close>: whether the
  frame rejects the proposed motion. A frame without a car tests nothing.
\<close>

definition rejected :: "Keys \<Rightarrow> (real \<times> real) list \<Rightarrow> real \<Rightarrow> real \<Rightarrow> CarState \<Rightarrow> bool" where
  "rejected keys obs R delta st =
     (case carRef st of
        None \<Rightarrow> False
      | Some car \<Rightarrow>
          hitsObstacle (proposed keys delta st car) obs \<or>
          outOfBounds R (proposed keys delta st car))"

section \<open>The random source\<close>

text \<open>
  \<^verbatim>\<open>Math.random()\<close> is global state. It is modelled as the sequence of values the
  calls will return; a call returns the head and leaves the rest. The contract of
  \<^verbatim>\<open>Math.random\<close> is that every value lies in the half-open unit interval.
\<close>

type_synonym random_source = "nat \<Rightarrow> real"

definition Math_random :: "random_source \<Rightarrow> real \<times> random_source" where
  "Math_random g = (g 0, \<lambda>n. g (Suc n))"

definition unit_interval :: "random_source \<Rightarrow> bool" where
  "unit_interval g \<longleftrightarrow> (\<forall>n. 0 \<le> g n \<and> g n < 1)"

section \<open>generateClusterPositions\<close>

text \<open>The inner \<^verbatim>\<open>for\<close> loop that computes \<^verbatim>\<open>ok\<close>, with its \<^verbatim>\<open>break\<close>.\<close>

fun farEnough :: "real \<Rightarrow> real \<Rightarrow> real \<Rightarrow> (real \<times> real) list \<Rightarrow> bool" where
  "farEnough x z minSep [] = True"
| "farEnough x z minSep ((px, pz) # positions) =
     (if hypot (px - x) (pz - z) < minSep then False else farEnough x z minSep positions)"

text \<open>
  The \<^verbatim>\<open>while\<close> loop. \<^verbatim>\<open>count\<close> is a natural number: the only call passes the
  length of an array.
\<close>

function generateClusterPositions_loop ::
  "nat \<Rightarrow> real \<Rightarrow> real \<Rightarrow> real \<Rightarrow> real \<Rightarrow> (real \<times> real) list \<Rightarrow> nat \<Rightarrow> random_source \<Rightarrow>
     (real \<times> real) list \<times> random_source" where
  "generateClusterPositions_loop count centerX centerZ radius minSep positions attempts g =
     (if length positions < count \<and> attempts < count * 50 then
        (let (u1, g1) = Math_random g;
             angle = u1 * pi * 2;
             (u2, g2) = Math_random g1;
             r = sqrt u2 * radius;
             x = centerX + cos angle * r;
             z = centerZ + sin angle * r;
             ok = farEnough x z minSep positions
         in generateClusterPositions_loop count centerX centerZ radius minSep
              (if ok then positions @ [(x, z)] else positions) (Suc attempts) g2)
      else (positions, g))"
  by pat_completeness auto
termination
  by (relation "measure (\<lambda>(count, _, _, _, _, _, attempts, _). count * 50 - attempts)")
    (auto simp: Math_random_def)

declare generateClusterPositions_loop.simps [simp del]

definition generateClusterPositions ::
  "nat \<Rightarrow> real \<Rightarrow> real \<Rightarrow> real \<Rightarrow> real \<Rightarrow> random_source \<Rightarrow> (real \<times> real) list \<times> random_source" where
  "generateClusterPositions count centerX centerZ radius minSep g =
     generateClusterPositions_loop count centerX centerZ radius minSep [] 0 g"

section \<open>cityData\<close>

text \<open>The repo objects the fetch hook builds.\<close>

record Repo =
  name :: string
  description :: "string option"
  html_url :: string
  repo_language :: string
  stargazers_count :: nat

text \<open>
  A value of the \<^verbatim>\<open>reposByLanguage\<close> object: an array of repos, or anything else
  (for which \<^verbatim>\<open>Array.isArray\<close> is false).
\<close>

datatype js_value = JsArray "Repo list" | JsOther

record City =
  language :: string
  centerX :: real
  centerZ :: real
  clusterRadius :: real
  repos :: "Repo list"
  buildingPositions :: "(real \<times> real) list"

definition planeRadius :: real where
  "planeRadius = 80"

definition cornerPositions :: "(real \<times> real) list" where
  "cornerPositions =
     [(- planeRadius + 10, - planeRadius + 10),
      (planeRadius - 10, - planeRadius + 10),
      (- planeRadius + 10, planeRadius - 10),
      (planeRadius - 10, planeRadius - 10),
      (- 50, 0),
      (50, 0),
      (0, - 50),
      (0, 50)]"

text \<open>
  \<^verbatim>\<open>langs.map((lang, i) => ...)\<close>: the cities are built in the order of the keys, and
  each one draws its three random numbers, then those of its cluster, before the next.
\<close>

fun cityData_map ::
  "(string \<times> js_value) list \<Rightarrow> string list \<Rightarrow> nat \<Rightarrow> random_source \<Rightarrow> City list \<times> random_source" where
  "cityData_map reposByLanguage [] i g = ([], g)"
| "cityData_map reposByLanguage (lang # langs) i g =
     (let corner = cornerPositions ! (i mod length cornerPositions);
          (u1, g1) = Math_random g;
          (u2, g2) = Math_random g1;
          (u3, g3) = Math_random g2;
          cx = fst corner + (u1 - 0.5) * 10;
          cz = snd corner + (u2 - 0.5) * 10;
          cr = 10 + u3 * 5;
          rs = (case map_of reposByLanguage lang of Some (JsArray a) \<Rightarrow> a | _ \<Rightarrow> []);
          (bp, g4) = generateClusterPositions (length rs) cx cz cr 5 g3;
          city = \<lparr>language = lang, centerX = cx, centerZ = cz, clusterRadius = cr,
                  repos = rs, buildingPositions = bp\<rparr>;
          (rest, g5) = cityData_map reposByLanguage langs (Suc i) g4
      in (city # rest, g5))"

text \<open>
  \<^verbatim>\<open>reposByLanguage\<close> is an association list in the order of \<^verbatim>\<open>Object.keys\<close>
  (the component returns before building anything when it is not an object). The result
  carries the random source that is left, for the code that draws from it next.
\<close>

definition cityData :: "(string \<times> js_value) list \<Rightarrow> random_source \<Rightarrow> City list \<times> random_source" where
  "cityData reposByLanguage g = cityData_map reposByLanguage (map fst reposByLanguage) 0 g"

section \<open>roadSegments\<close>

text \<open>
  The division of \<^verbatim>\<open>roadSegments\<close> can have a zero divisor, so its result is a
  JavaScript number with the special values: a finite real, an infinity or not-a-number.
  The operations below are those of JavaScript on such values, without rounding. A zero
  divisor is the positive zero: the divisor of the source is a result of
  \<^verbatim>\<open>Math.hypot\<close>, which is never the negative zero.
\<close>

datatype number = Finite real | PosInfinity | NegInfinity | NaN

fun js_div :: "number \<Rightarrow> number \<Rightarrow> number" where
  "js_div (Finite a) (Finite b) =
     (if b \<noteq> 0 then Finite (a / b)
      else if a = 0 then NaN
      else if 0 < a then PosInfinity else NegInfinity)"
| "js_div NaN _ = NaN"
| "js_div _ NaN = NaN"
| "js_div (Finite a) _ = Finite 0"
| "js_div PosInfinity (Finite b) = (if 0 \<le> b then PosInfinity else NegInfinity)"
| "js_div NegInfinity (Finite b) = (if 0 \<le> b then NegInfinity else PosInfinity)"
| "js_div _ _ = NaN"

fun js_mul :: "number \<Rightarrow> number \<Rightarrow> number" where
  "js_mul (Finite a) (Finite b) = Finite (a * b)"
| "js_mul NaN _ = NaN"
| "js_mul _ NaN = NaN"
| "js_mul (Finite a) PosInfinity =
     (if a = 0 then NaN else if 0 < a then PosInfinity else NegInfinity)"
| "js_mul (Finite a) NegInfinity =
     (if a = 0 then NaN else if 0 < a then NegInfinity else PosInfinity)"
| "js_mul PosInfinity (Finite b) =
     (if b = 0 then NaN else if 0 < b then PosInfinity else NegInfinity)"
| "js_mul NegInfinity (Finite b) =
     (if b = 0 then NaN else if 0 < b then NegInfinity else PosInfinity)"
| "js_mul PosInfinity PosInfinity = PosInfinity"
| "js_mul NegInfinity NegInfinity = PosInfinity"
| "js_mul _ _ = NegInfinity"

fun js_neg :: "number \<Rightarrow> number" where
  "js_neg (Finite a) = Finite (- a)"
| "js_neg PosInfinity = NegInfinity"
| "js_neg NegInfinity = PosInfinity"
| "js_neg NaN = NaN"

fun js_add :: "number \<Rightarrow> number \<Rightarrow> number" where
  "js_add (Finite a) (Finite b) = Finite (a + b)"
| "js_add NaN _ = NaN"
| "js_add _ NaN = NaN"
| "js_add PosInfinity NegInfinity = NaN"
| "js_add NegInfinity PosInfinity = NaN"
| "js_add PosInfinity _ = PosInfinity"
| "js_add _ PosInfinity = PosInfinity"
| "js_add _ _ = NegInfinity"

definition js_sub :: "number \<Rightarrow> number \<Rightarrow> number" where
  "js_sub a b = js_add a (js_neg b)"

text \<open>
  The body of the \<^verbatim>\<open>for\<close> loop: the segment \<^verbatim>\<open>[x1, z1, x2, z2]\<close> of one pair
  (\<open>cur\<close> is the source's \<^verbatim>\<open>curr\<close>).
\<close>

definition segment :: "City \<Rightarrow> City \<Rightarrow> number \<times> number \<times> number \<times> number" where
  "segment cur next =
     (let dx = centerX next - centerX cur;
          dz = centerZ next - centerZ cur;
          dist = hypot dx dz;
          ux = js_div (Finite dx) (Finite dist);
          uz = js_div (Finite dz) (Finite dist);
          x1 = js_add (Finite (centerX cur)) (js_mul ux (Finite (clusterRadius cur + 2)));
          z1 = js_add (Finite (centerZ cur)) (js_mul uz (Finite (clusterRadius cur + 2)));
          x2 = js_sub (Finite (centerX next)) (js_mul ux (Finite (clusterRadius next + 2)));
          z2 = js_sub (Finite (centerZ next)) (js_mul uz (Finite (clusterRadius next + 2)))
      in (x1, z1, x2, z2))"

text \<open>
  The loop pushes one segment for each index, in order; both indices it reads are in
  range.
\<close>

definition roadSegments :: "City list \<Rightarrow> (number \<times> number \<times> number \<times> number) list" where
  "roadSegments cities =
     (if length cities = 0 then []
      else map (\<lambda>i. segment (cities ! i) (cities ! ((i + 1) mod length cities)))
             [0..<length cities])"

section \<open>obstacleCenters and treePositions\<close>

text \<open>
  The second \<^verbatim>\<open>forEach\<close> over the building positions of one city: the trees it
  derives, in order. The building position itself is not used.
\<close>

fun cityTrees :: "City \<Rightarrow> (real \<times> real) list \<Rightarrow> random_source \<Rightarrow> (real \<times> real) list \<times> random_source" where
  "cityTrees city [] g = ([], g)"
| "cityTrees city (pos # rest) g =
     (let (u1, g1) = Math_random g;
          angle = u1 * pi * 2;
          (u2, g2) = Math_random g1;
          r = clusterRadius city * (0.85 + u2 * 0.3);
          tx = centerX city + cos angle * r;
          tz = centerZ city + sin angle * r;
          (ts, g3) = cityTrees city rest g2
      in ((tx, tz) # ts, g3))"

record Obstacles =
  obstacleCenters :: "(real \<times> real) list"
  treePositions :: "(real \<times> real) list"

text \<open>
  \<^verbatim>\<open>cityData.forEach\<close>: the two arrays grow city by city; a city's trees are pushed
  to both.
\<close>

fun obstacles_forEach ::
  "City list \<Rightarrow> (real \<times> real) list \<Rightarrow> (real \<times> real) list \<Rightarrow> random_source \<Rightarrow> Obstacles \<times> random_source" where
  "obstacles_forEach [] obstacles trees g =
     (\<lparr>obstacleCenters = obstacles, treePositions = trees\<rparr>, g)"
| "obstacles_forEach (city # cities) obstacles trees g =
     (let obstacles1 = obstacles @ buildingPositions city;
          (ts, g1) = cityTrees city (buildingPositions city) g
      in obstacles_forEach cities (obstacles1 @ ts) (trees @ ts) g1)"

definition deriveObstacles :: "City list \<Rightarrow> random_source \<Rightarrow> Obstacles \<times> random_source" where
  "deriveObstacles cities g = obstacles_forEach cities [] [] g"

section \<open>Runs and concrete scenes\<close>

text \<open>
  A sequence of frames. Each frame has its own key table, props and \<^verbatim>\<open>delta\<close>.
\<close>

fun run :: "(Keys \<times> (real \<times> real) list \<times> real \<times> bool \<times> real) list \<Rightarrow> CarState \<Rightarrow> CarState" where
  "run [] st = st"
| "run ((keys, obs, R, followCam, delta) # inputs) st =
     run inputs (useFrame keys obs R followCam delta st)"

text \<open>A sequence of frames none of which rejects its proposed motion.\<close>

fun noneRejected ::
  "(Keys \<times> (real \<times> real) list \<times> real \<times> bool \<times> real) list \<Rightarrow> CarState \<Rightarrow> bool" where
  "noneRejected [] st = True"
| "noneRejected ((keys, obs, R, followCam, delta) # inputs) st =
     (\<not> rejected keys obs R delta st \<and>
      noneRejected inputs (useFrame keys obs R followCam delta st))"

text \<open>
  The state the component starts from: no key pressed, the car group at
  \<^verbatim>\<open>[0, 0.5, planeRadius - 20]\<close>, both refs at 0, and the camera where the canvas of
  \<^verbatim>\<open>App.jsx\<close> puts it.
\<close>

definition noKeys :: Keys where
  "noKeys = \<lparr>key_w = False, key_a = False, key_s = False, key_d = False, ArrowUp = False,
     ArrowLeft = False, ArrowDown = False, ArrowRight = False, key_c = False\<rparr>"

definition initialCar :: Object3D where
  "initialCar = \<lparr>position = \<lparr>vx = 0, vy = 0.5, vz = planeRadius - 20\<rparr>, rotation_y = 0\<rparr>"

definition initialState :: CarState where
  "initialState = \<lparr>carRef = Some initialCar, velocity = 0, yaw = 0,
     camera_position = \<lparr>vx = 0, vy = 12, vz = 30\<rparr>, camera_lookAt = \<lparr>vx = 0, vy = 0, vz = 0\<rparr>\<rparr>"

text \<open>
  The state \<open>n\<close> frames after the initial one when \<^verbatim>\<open>w\<close> is held at
  \<^verbatim>\<open>delta\<close> = 0.1 and nothing is in the way: the car has moved straight on.
\<close>

definition freeRoad :: "nat \<Rightarrow> CarState" where
  "freeRoad n =
     initialState\<lparr>carRef := Some (initialCar\<lparr>position :=
                       \<lparr>vx = 0, vy = 0.5, vz = 60 - real (n * (n + 1)) / 20\<rparr>\<rparr>),
                   velocity := real n\<rparr>"

text \<open>
  Random sources for concrete runs: one whose first two candidates are far apart, and the
  one that always returns 0.
\<close>

definition twoPoints :: random_source where
  "twoPoints = (\<lambda>n. if n = 2 then 1/2 else if n = 1 \<or> n = 3 then 1/4 else 0)"

definition zeroSource :: random_source where
  "zeroSource = (\<lambda>n. 0)"

text \<open>
  Two repos of one language group.
\<close>

definition repoA :: Repo where
  "repoA = \<lparr>name = ''alpha'', description = None, html_url = ''https://example.org/alpha'',
     repo_language = ''JavaScript'', stargazers_count = 0\<rparr>"

definition repoB :: Repo where
  "repoB = \<lparr>name = ''beta'', description = None, html_url = ''https://example.org/beta'',
     repo_language = ''JavaScript'', stargazers_count = 3\<rparr>"

text \<open>
  Cities for concrete runs: two with different centers, and eight with three repos and
  three building positions each.
\<close>

definition oneCity :: City where
  "oneCity = \<lparr>language = ''JavaScript'', centerX = - 70, centerZ = - 70, clusterRadius = 12,
     repos = [repoA, repoB], buildingPositions = [(- 66, - 70), (- 74, - 70)]\<rparr>"

definition otherCity :: City where
  "otherCity = \<lparr>language = ''Python'', centerX = - 40, centerZ = - 30, clusterRadius = 10,
     repos = [repoB], buildingPositions = [(- 40, - 30)]\<rparr>"

definition repoC :: Repo where
  "repoC = \<lparr>name = ''gamma'', description = Some ''third'', html_url = ''https://example.org/gamma'',
     repo_language = ''JavaScript'', stargazers_count = 1\<rparr>"

definition eightCities :: "City list" where
  "eightCities =
     map (\<lambda>(x, z). \<lparr>language = ''JavaScript'', centerX = x, centerZ = z, clusterRadius = 12,
            repos = [repoA, repoB, repoC],
            buildingPositions = [(x, z), (x + 6, z), (x, z + 6)]\<rparr>)
       cornerPositions"

text \<open>Eight language groups of three repos each, as the fetch hook would group them.\<close>

definition eightGroups :: "(string \<times> js_value) list" where
  "eightGroups =
     [(''JavaScript'', JsArray [repoA, repoB, repoC]),
      (''Python'', JsArray [repoA, repoB, repoC]),
      (''TypeScript'', JsArray [repoA, repoB, repoC]),
      (''Go'', JsArray [repoA, repoB, repoC]),
      (''Rust'', JsArray [repoA, repoB, repoC]),
      (''C'', JsArray [repoA, repoB, repoC]),
      (''Shell'', JsArray [repoA, repoB, repoC]),
      (''Other'', JsArray [repoA, repoB, repoC])]"

section \<open>Facts about the drive update\<close>

lemma hypot_less_iff: "0 < r \<Longrightarrow> hypot a b < r \<longleftrightarrow> a * a + b * b < r * r"
proof -
  assume r: "0 < r"
  have "hypot a b < r \<longleftrightarrow> sqrt (a * a + b * b) < sqrt (r * r)"
    using r by (simp add: hypot_def)
  also have "\<dots> \<longleftrightarrow> a * a + b * b < r * r"
    by (rule real_sqrt_less_iff)
  finally show ?thesis .
qed

lemma hitsObstacle_Bex:
  "hitsObstacle p obs \<longleftrightarrow>
     (\<exists>(ox, oz)\<in>set obs. hypot (vx p - ox) (vz p - oz) < carRadius + obstacleRadius)"
  by (induction obs) auto

lemma useFrame_velocity:
  "carRef st = Some car \<Longrightarrow>
   velocity (useFrame keys obs R followCam delta st) =
     (if hitsObstacle (proposed keys delta st car) obs \<or>
         outOfBounds R (proposed keys delta st car)
      then 0 else longitudinal keys delta (velocity st))"
  by (simp add: useFrame_def proposed_def Let_def)

lemma useFrame_yaw:
  "carRef st = Some car \<Longrightarrow>
   yaw (useFrame keys obs R followCam delta st) =
     steering keys delta (longitudinal keys delta (velocity st)) (yaw st)"
  by (simp add: useFrame_def Let_def)

lemma useFrame_car:
  "carRef st = Some car \<Longrightarrow>
   carRef (useFrame keys obs R followCam delta st) =
     Some \<lparr>position =
             (if hitsObstacle (proposed keys delta st car) obs \<or>
                 outOfBounds R (proposed keys delta st car)
              then position car else proposed keys delta st car),
           rotation_y = steering keys delta (longitudinal keys delta (velocity st)) (yaw st)\<rparr>"
  by (simp add: useFrame_def proposed_def Let_def)

lemma useFrame_absent:
  "carRef st = None \<Longrightarrow> useFrame keys obs R followCam delta st = st"
  by (simp add: useFrame_def)

lemma hypot_sin_cos: "hypot (s * sin t) (s * cos t) = \<bar>s\<bar>"
proof -
  have "(s * sin t) * (s * sin t) + (s * cos t) * (s * cos t) =
        s * s * ((sin t)\<^sup>2 + (cos t)\<^sup>2)"
    unfolding power2_eq_square by (simp only: distrib_left mult_ac)
  also have "\<dots> = s * s" by simp
  finally show ?thesis by (simp add: hypot_def)
qed

lemma proposed_distance:
  "hypot (vx (proposed keys delta st car) - vx (position car))
         (vz (proposed keys delta st car) - vz (position car)) =
     \<bar>longitudinal keys delta (velocity st) * delta\<bar>"
proof -
  define v1 where "v1 = longitudinal keys delta (velocity st)"
  define t where "t = steering keys delta v1 (yaw st)"
  have x: "vx (proposed keys delta st car) - vx (position car) = (- (v1 * delta)) * sin t"
    by (simp add: proposed_def Let_def addScaledVector_def forward_def applyQuaternion_def
        v1_def t_def)
  have z: "vz (proposed keys delta st car) - vz (position car) = (- (v1 * delta)) * cos t"
    by (simp add: proposed_def Let_def addScaledVector_def forward_def applyQuaternion_def
        v1_def t_def)
  show ?thesis
    unfolding x z hypot_sin_cos by (simp add: v1_def)
qed

lemma proposed_initial_forward:
  "proposed (noKeys\<lparr>key_w := True\<rparr>) (1/10) initialState initialCar =
     \<lparr>vx = 0, vy = 0.5, vz = 599/10\<rparr>"
  by (simp add: proposed_def noKeys_def initialState_def initialCar_def longitudinal_def
      steering_def forward_def applyQuaternion_def addScaledVector_def Let_def planeRadius_def)

text \<open>
  Claim C1. With the car present, let \<open>p\<close> be the proposed position of the frame. If
  \<open>p\<close> is nearer than 1.0 + 2.0 to some obstacle (the source's test is the strict
  \<^verbatim>\<open><\<close>), or an axis of \<open>p\<close> is below \<open>- R + 1.0\<close> or above \<open>R - 1.0\<close>, the frame
  leaves the position as it was and sets the velocity to 0; otherwise the position after
  the frame is \<open>p\<close>.
\<close>

theorem drive_collision_test:
  assumes "carRef st = Some car"
  shows "let p = proposed keys delta st car;
             st' = useFrame keys obs R followCam delta st
         in if (\<exists>(ox, oz)\<in>set obs. hypot (vx p - ox) (vz p - oz) < 1.0 + 2.0) \<or>
               vx p < - R + 1.0 \<or> vx p > R - 1.0 \<or>
               vz p < - R + 1.0 \<or> vz p > R - 1.0
            then map_option position (carRef st') = Some (position car) \<and> velocity st' = 0
            else map_option position (carRef st') = Some p"
  using assms
  by (simp add: Let_def useFrame_car useFrame_velocity hitsObstacle_Bex outOfBounds_def
      carRadius_def obstacleRadius_def)

text \<open>
  Claim C1 at concrete inputs: from the initial state with \<^verbatim>\<open>w\<close> held, an obstacle
  1.9 units from the proposed position rejects the motion, and one 19.9 units away lets it
  through.
\<close>

theorem drive_collision_test_witness:
  "carRef initialState = Some initialCar \<and>
   (\<exists>(ox, oz)\<in>set [(0, 58)].
      hypot (vx (proposed (noKeys\<lparr>key_w := True\<rparr>) (1/10) initialState initialCar) - ox)
            (vz (proposed (noKeys\<lparr>key_w := True\<rparr>) (1/10) initialState initialCar) - oz)
        < 1.0 + 2.0) \<and>
   map_option position
     (carRef (useFrame (noKeys\<lparr>key_w := True\<rparr>) [(0, 58)] 80 False (1/10) initialState)) =
     Some \<lparr>vx = 0, vy = 0.5, vz = 60\<rparr> \<and>
   velocity (useFrame (noKeys\<lparr>key_w := True\<rparr>) [(0, 58)] 80 False (1/10) initialState) = 0 \<and>
   map_option position
     (carRef (useFrame (noKeys\<lparr>key_w := True\<rparr>) [(0, 40)] 80 False (1/10) initialState)) =
     Some \<lparr>vx = 0, vy = 0.5, vz = 599/10\<rparr>"
proof -
  have c: "carRef initialState = Some initialCar" by (simp add: initialState_def)
  have h: "hypot 0 (599/10 - 58) < 3" "\<not> hypot 0 (599/10 - 40) < 3"
    by (simp_all add: hypot_less_iff)
  have p: "position initialCar = \<lparr>vx = 0, vy = 0.5, vz = 60\<rparr>"
    by (simp add: initialCar_def planeRadius_def)
  show ?thesis
    using drive_collision_test [OF c, of "noKeys\<lparr>key_w := True\<rparr>" "1/10" "[(0, 58)]" 80 False]
      drive_collision_test [OF c, of "noKeys\<lparr>key_w := True\<rparr>" "1/10" "[(0, 40)]" 80 False] h
    by (simp add: proposed_initial_forward Let_def c p)
qed

lemma longitudinal_forward_iter:
  assumes "key_w keys \<or> ArrowUp keys"
  shows "(longitudinal keys (1/10) ^^ n) 0 = min 20 (real n)"
proof (induction n)
  case 0
  show ?case by simp
next
  case (Suc n)
  have "(longitudinal keys (1/10) ^^ Suc n) 0 = longitudinal keys (1/10) (min 20 (real n))"
    by (simp only: funpow.simps o_apply Suc)
  also have "\<dots> = min 20 (real (Suc n))"
    using assms by (simp add: longitudinal_def min_def)
  finally show ?case .
qed

lemma longitudinal_coast_iter:
  assumes "\<not> (key_w keys \<or> ArrowUp keys)" "\<not> (key_s keys \<or> ArrowDown keys)"
  shows "(longitudinal keys delta ^^ n) v = v * 0.98 ^ n"
  using assms by (induction n) (simp_all add: longitudinal_def)

lemma run_append: "run (xs @ ys) st = run ys (run xs st)"
  by (induction xs arbitrary: st) auto

lemma noneRejected_append:
  "noneRejected (xs @ ys) st \<longleftrightarrow> noneRejected xs st \<and> noneRejected ys (run xs st)"
  by (induction xs arbitrary: st) auto

lemma run_carRef: "carRef st = Some car \<Longrightarrow> \<exists>car'. carRef (run inputs st) = Some car'"
proof (induction inputs arbitrary: st car)
  case Nil
  then show ?case by simp
next
  case (Cons i inputs)
  obtain keys obs R followCam delta where i: "i = (keys, obs, R, followCam, delta)"
    by (cases i)
  from useFrame_car [OF Cons.prems]
  obtain c where "carRef (useFrame keys obs R followCam delta st) = Some c" by blast
  from Cons.IH [OF this] show ?case by (simp add: i)
qed

lemma useFrame_velocity_rejected:
  "carRef st = Some car \<Longrightarrow>
   velocity (useFrame keys obs R followCam delta st) =
     (if rejected keys obs R delta st then 0 else longitudinal keys delta (velocity st))"
  by (simp add: useFrame_velocity rejected_def)

lemma run_velocity_accepted:
  "carRef st = Some car \<Longrightarrow>
   noneRejected (replicate n (keys, obs, R, followCam, delta)) st \<Longrightarrow>
   velocity (run (replicate n (keys, obs, R, followCam, delta)) st) =
     (longitudinal keys delta ^^ n) (velocity st)"
proof (induction n)
  case 0
  show ?case by simp
next
  case (Suc n)
  let ?i = "(keys, obs, R, followCam, delta)"
  have split: "replicate (Suc n) ?i = replicate n ?i @ [?i]"
    by (simp add: replicate_append_same)
  from Suc.prems(2) have a: "noneRejected (replicate n ?i) st"
    and b: "\<not> rejected keys obs R delta (run (replicate n ?i) st)"
    unfolding split noneRejected_append by simp_all
  from run_carRef [OF Suc.prems(1)] obtain c where c: "carRef (run (replicate n ?i) st) = Some c"
    by blast
  have "velocity (run (replicate (Suc n) ?i) st) =
        velocity (useFrame keys obs R followCam delta (run (replicate n ?i) st))"
    unfolding split run_append by simp
  also have "\<dots> = longitudinal keys delta (velocity (run (replicate n ?i) st))"
    using b by (simp add: useFrame_velocity_rejected [OF c])
  also have "\<dots> = (longitudinal keys delta ^^ Suc n) (velocity st)"
    by (simp add: Suc.IH [OF Suc.prems(1) a])
  finally show ?case .
qed

lemma noneRejected_prefix:
  "noneRejected (replicate n i) st \<Longrightarrow> k \<le> n \<Longrightarrow> noneRejected (replicate k i) st"
proof -
  assume a: "noneRejected (replicate n i) st" and k: "k \<le> n"
  have "replicate n i = replicate k i @ replicate (n - k) i"
    using k by (simp add: replicate_add [symmetric])
  with a show ?thesis by (simp add: noneRejected_append)
qed

lemma coasting_step_bounds:
  assumes "\<not> key_w keys" "\<not> ArrowUp keys" "\<not> key_s keys" "\<not> ArrowDown keys" "0 \<le> velocity st"
  shows "0 \<le> velocity (useFrame keys obs R followCam delta st) \<and>
         velocity (useFrame keys obs R followCam delta st) \<le> velocity st"
proof (cases "carRef st")
  case None
  then show ?thesis using assms by (simp add: useFrame_absent)
next
  case (Some car)
  show ?thesis using assms by (simp add: useFrame_velocity [OF Some] longitudinal_def)
qed

lemma coasting_run_bounds:
  assumes "\<not> key_w keys" "\<not> ArrowUp keys" "\<not> key_s keys" "\<not> ArrowDown keys"
  shows "0 \<le> velocity st \<Longrightarrow>
         0 \<le> velocity (run (replicate n (keys, obs, R, followCam, delta)) st) \<and>
         velocity (run (replicate n (keys, obs, R, followCam, delta)) st) \<le> velocity st"
proof (induction n arbitrary: st)
  case 0
  then show ?case by simp
next
  case (Suc n)
  from coasting_step_bounds [OF assms Suc.prems, of obs R followCam delta]
  have s: "0 \<le> velocity (useFrame keys obs R followCam delta st)"
    "velocity (useFrame keys obs R followCam delta st) \<le> velocity st"
    by simp_all
  from Suc.IH [OF s(1)] s(2) show ?case by simp
qed

lemma useFrame_free_camera:
  "carRef st = Some car \<Longrightarrow>
   useFrame keys obs R False delta st =
     st\<lparr>carRef := Some \<lparr>position =
                           (if rejected keys obs R delta st then position car
                            else proposed keys delta st car),
                         rotation_y =
                           steering keys delta (longitudinal keys delta (velocity st)) (yaw st)\<rparr>,
        velocity := (if rejected keys obs R delta st then 0
                     else longitudinal keys delta (velocity st)),
        yaw := steering keys delta (longitudinal keys delta (velocity st)) (yaw st)\<rparr>"
  by (simp add: useFrame_def proposed_def rejected_def Let_def)

lemma blocked_frame:
  "useFrame (noKeys\<lparr>key_w := True\<rparr>) [(0, 58)] 80 False (1/10) initialState = initialState"
proof -
  let ?K = "noKeys\<lparr>key_w := True\<rparr>"
  have h: "hypot 0 (599/10 - 58) < 3" by (simp add: hypot_less_iff)
  have c: "carRef initialState = Some initialCar" by (simp add: initialState_def)
  have "hitsObstacle (proposed ?K (1/10) initialState initialCar) [(0, 58)]"
    using h by (simp add: proposed_initial_forward carRadius_def obstacleRadius_def)
  then have r: "rejected ?K [(0, 58)] 80 (1/10) initialState"
    by (simp add: rejected_def c del: hitsObstacle.simps)
  have s: "steering ?K (1/10) (longitudinal ?K (1/10) (velocity initialState)) (yaw initialState) = 0"
    by (simp add: steering_def longitudinal_def noKeys_def initialState_def)
  show ?thesis
    unfolding useFrame_free_camera [OF c] s
    using r by (simp add: initialState_def initialCar_def)
qed

lemma blocked_run:
  "run (replicate n (noKeys\<lparr>key_w := True\<rparr>, [(0, 58)], 80, False, 1/10)) initialState =
     initialState"
  by (induction n) (simp_all add: blocked_frame)

lemma blocked_moving:
  "velocity (useFrame (noKeys\<lparr>key_w := True\<rparr>) [(0, 58)] 80 False (1/10)
      (initialState\<lparr>velocity := 5\<rparr>)) = 0"
proof -
  let ?K = "noKeys\<lparr>key_w := True\<rparr>"
  let ?S = "initialState\<lparr>velocity := 5\<rparr>"
  have c: "carRef ?S = Some initialCar" by (simp add: initialState_def)
  have p: "proposed ?K (1/10) ?S initialCar = \<lparr>vx = 0, vy = 0.5, vz = 594/10\<rparr>"
    by (simp add: proposed_def noKeys_def initialState_def initialCar_def longitudinal_def
      steering_def forward_def applyQuaternion_def addScaledVector_def Let_def planeRadius_def)
  have h: "hypot 0 (594/10 - 58) < 3" by (simp add: hypot_less_iff)
  have "hitsObstacle (proposed ?K (1/10) ?S initialCar) [(0, 58)]"
    using h by (simp add: p carRadius_def obstacleRadius_def)
  then show ?thesis by (simp add: useFrame_velocity [OF c] del: hitsObstacle.simps)
qed

lemma blocked_coasting:
  "velocity (useFrame noKeys [(0, 60)] 80 False (1/10) (initialState\<lparr>velocity := 10\<rparr>)) = 0"
proof -
  let ?S = "initialState\<lparr>velocity := 10\<rparr>"
  have c: "carRef ?S = Some initialCar" by (simp add: initialState_def)
  have v: "velocity ?S = 10" by (simp add: initialState_def)
  have p: "vx (position initialCar) = 0" "vz (position initialCar) = 60"
    by (simp_all add: initialCar_def planeRadius_def)
  have l: "longitudinal noKeys (1/10) 10 = 98/10"
    by (simp add: longitudinal_def noKeys_def)
  have "hypot (vx (proposed noKeys (1/10) ?S initialCar) - 0)
              (vz (proposed noKeys (1/10) ?S initialCar) - 60) = 98/100"
    using proposed_distance [of noKeys "1/10" ?S initialCar] by (simp add: p v l)
  then have "hitsObstacle (proposed noKeys (1/10) ?S initialCar) [(0, 60)]"
    by (simp add: carRadius_def obstacleRadius_def)
  then show ?thesis by (simp add: useFrame_velocity [OF c] del: hitsObstacle.simps)
qed

text \<open>
  Claim C7 as stated fails. From the initial state with \<^verbatim>\<open>w\<close> held and an obstacle
  at \<open>(0, 58)\<close>, the first frame proposes a position 1.9 from the obstacle and is rejected:
  the velocity after it is 0, not \<open>min 20 (0 + 10 * 0.1) = 1\<close>, and it is 0 after every
  number of frames, so it never rises to the cap. From velocity 5 the same frame takes the
  velocity down to 0. With no key held, a rejected frame takes velocity 10 to 0, not to
  9.8.
\<close>

theorem velocity_reset_counterexample:
  "carRef initialState = Some initialCar \<and>
   velocity initialState = 0 \<and>
   key_w (noKeys\<lparr>key_w := True\<rparr>) \<and>
   min 20 (velocity initialState + 10 * (1/10)) = 1 \<and>
   velocity (useFrame (noKeys\<lparr>key_w := True\<rparr>) [(0, 58)] 80 False (1/10) initialState) = 0 \<and>
   (\<forall>n. velocity (run (replicate n (noKeys\<lparr>key_w := True\<rparr>, [(0, 58)], 80, False, 1/10))
            initialState) = 0) \<and>
   velocity (initialState\<lparr>velocity := 5\<rparr>) = 5 \<and>
   velocity (useFrame (noKeys\<lparr>key_w := True\<rparr>) [(0, 58)] 80 False (1/10)
      (initialState\<lparr>velocity := 5\<rparr>)) = 0 \<and>
   velocity (initialState\<lparr>velocity := 10\<rparr>) * 0.98 = 98/10 \<and>
   velocity (useFrame noKeys [(0, 60)] 80 False (1/10) (initialState\<lparr>velocity := 10\<rparr>)) = 0"
  by (simp add: blocked_frame blocked_run blocked_moving blocked_coasting)
    (simp add: initialState_def)

text \<open>
  Claim C7, as amended. With the car present, a frame that rejects its proposed motion
  leaves the velocity 0. With a forward key held and \<^verbatim>\<open>delta\<close> = 0.1, a frame that does
  not reject takes the velocity \<open>v\<close> to \<open>min 20 (v + 10 * 0.1)\<close>; in a run of frames from
  velocity 0 none of which rejects, the velocity after \<open>k\<close> frames is \<open>min 20 k\<close>: it never
  decreases, it increases strictly until the cap, it never exceeds 20, and it is 20 from
  the twentieth frame (2 seconds) on.
  With the forward and back keys released, a frame that does not reject multiplies the
  velocity by 0.98, for every \<^verbatim>\<open>delta\<close>; in a run none of whose frames rejects, the
  velocity after \<open>k\<close> frames is \<open>v * 0.98 ^ k\<close> (arithmetic is exact here), positive and
  not larger than before when \<open>v\<close> is positive. Rejected or not, coasting from a velocity
  that is not negative never makes it negative and never makes it larger.
\<close>

theorem velocity_law:
  assumes "carRef st = Some car"
  shows
   "(rejected keys obs R delta st \<longrightarrow>
       velocity (useFrame keys obs R followCam delta st) = 0) \<and>
    (key_w keys \<or> ArrowUp keys \<longrightarrow>
       (\<not> rejected keys obs R (1/10) st \<longrightarrow>
          velocity (useFrame keys obs R followCam (1/10) st) = min 20 (velocity st + 10 * (1/10))) \<and>
       (velocity st = 0 \<and> noneRejected (replicate n (keys, obs, R, followCam, 1/10)) st \<longrightarrow>
          (\<forall>k\<le>n. velocity (run (replicate k (keys, obs, R, followCam, 1/10)) st) = min 20 (real k)) \<and>
          (\<forall>k<n. velocity (run (replicate k (keys, obs, R, followCam, 1/10)) st) \<le>
                  velocity (run (replicate (Suc k) (keys, obs, R, followCam, 1/10)) st)) \<and>
          (\<forall>k<n. k < 20 \<longrightarrow>
                  velocity (run (replicate k (keys, obs, R, followCam, 1/10)) st) <
                  velocity (run (replicate (Suc k) (keys, obs, R, followCam, 1/10)) st)) \<and>
          velocity (run (replicate n (keys, obs, R, followCam, 1/10)) st) \<le> 20 \<and>
          (20 \<le> n \<longrightarrow> velocity (run (replicate n (keys, obs, R, followCam, 1/10)) st) = 20))) \<and>
    (\<not> key_w keys \<and> \<not> ArrowUp keys \<and> \<not> key_s keys \<and> \<not> ArrowDown keys \<longrightarrow>
       (\<not> rejected keys obs R delta st \<longrightarrow>
          velocity (useFrame keys obs R followCam delta st) = velocity st * 0.98) \<and>
       (noneRejected (replicate n (keys, obs, R, followCam, delta)) st \<longrightarrow>
          (\<forall>k\<le>n. velocity (run (replicate k (keys, obs, R, followCam, delta)) st) =
                  velocity st * 0.98 ^ k) \<and>
          (0 < velocity st \<longrightarrow>
             (\<forall>k\<le>n. 0 < velocity (run (replicate k (keys, obs, R, followCam, delta)) st)) \<and>
             (\<forall>k<n. velocity (run (replicate (Suc k) (keys, obs, R, followCam, delta)) st) \<le>
                     velocity (run (replicate k (keys, obs, R, followCam, delta)) st)))) \<and>
       (0 \<le> velocity st \<longrightarrow>
          0 \<le> velocity (run (replicate n (keys, obs, R, followCam, delta)) st) \<and>
          velocity (run (replicate n (keys, obs, R, followCam, delta)) st) \<le> velocity st))"
proof (intro conjI impI allI)
  assume "rejected keys obs R delta st"
  then show "velocity (useFrame keys obs R followCam delta st) = 0"
    by (simp add: useFrame_velocity_rejected [OF assms])
next
  assume f: "key_w keys \<or> ArrowUp keys" and a: "\<not> rejected keys obs R (1/10) st"
  show "velocity (useFrame keys obs R followCam (1/10) st) = min 20 (velocity st + 10 * (1/10))"
    using f a by (simp add: useFrame_velocity_rejected [OF assms] longitudinal_def)
next
  let ?i = "(keys, obs, R, followCam, 1/10 :: real)"
  assume f: "key_w keys \<or> ArrowUp keys"
    and h: "velocity st = 0 \<and> noneRejected (replicate n ?i) st"
  have v: "velocity (run (replicate k ?i) st) = min 20 (real k)" if "k \<le> n" for k
  proof -
    have p: "noneRejected (replicate k ?i) st"
      using h that by (blast intro: noneRejected_prefix)
    from run_velocity_accepted [OF assms p] h longitudinal_forward_iter [OF f, of k]
    show ?thesis by simp
  qed
  show "velocity (run (replicate k ?i) st) = min 20 (real k)" if "k \<le> n" for k
    using that by (rule v)
  show "velocity (run (replicate k ?i) st) \<le> velocity (run (replicate (Suc k) ?i) st)"
    if "k < n" for k
    using v [of k] v [of "Suc k"] that by simp
  show "velocity (run (replicate k ?i) st) < velocity (run (replicate (Suc k) ?i) st)"
    if "k < n" "k < 20" for k
    using v [of k] v [of "Suc k"] that by simp
  show "velocity (run (replicate n ?i) st) \<le> 20"
    using v [of n] by simp
  show "velocity (run (replicate n ?i) st) = 20" if "20 \<le> n"
    using v [of n] that by simp
next
  assume r: "\<not> key_w keys \<and> \<not> ArrowUp keys \<and> \<not> key_s keys \<and> \<not> ArrowDown keys"
    and a: "\<not> rejected keys obs R delta st"
  show "velocity (useFrame keys obs R followCam delta st) = velocity st * 0.98"
    using r a by (simp add: useFrame_velocity_rejected [OF assms] longitudinal_def)
next
  let ?i = "(keys, obs, R, followCam, delta)"
  assume r: "\<not> key_w keys \<and> \<not> ArrowUp keys \<and> \<not> key_s keys \<and> \<not> ArrowDown keys"
    and a: "noneRejected (replicate n ?i) st"
  from r have r1: "\<not> (key_w keys \<or> ArrowUp keys)" and r2: "\<not> (key_s keys \<or> ArrowDown keys)"
    by simp_all
  have v: "velocity (run (replicate k ?i) st) = velocity st * 0.98 ^ k" if "k \<le> n" for k
    using run_velocity_accepted [OF assms noneRejected_prefix [OF a that]]
      longitudinal_coast_iter [OF r1 r2, where n = k and v = "velocity st" and delta = delta]
    by simp
  show "velocity (run (replicate k ?i) st) = velocity st * 0.98 ^ k" if "k \<le> n" for k
    using that by (rule v)
  show "0 < velocity (run (replicate k ?i) st)" if "0 < velocity st" "k \<le> n" for k
    using v [OF that(2)] that(1) by simp
  show "velocity (run (replicate (Suc k) ?i) st) \<le> velocity (run (replicate k ?i) st)"
    if "0 < velocity st" "k < n" for k
  proof -
    have "0 \<le> velocity st * 0.98 ^ k" using that(1) by simp
    then have "velocity st * 0.98 ^ k * 0.98 \<le> velocity st * 0.98 ^ k" by simp
    then show ?thesis using v [of k] v [of "Suc k"] that(2) by (simp add: mult_ac)
  qed
next
  assume r: "\<not> key_w keys \<and> \<not> ArrowUp keys \<and> \<not> key_s keys \<and> \<not> ArrowDown keys"
    and p: "0 \<le> velocity st"
  from r have k: "\<not> key_w keys" "\<not> ArrowUp keys" "\<not> key_s keys" "\<not> ArrowDown keys"
    by simp_all
  from coasting_run_bounds [OF k p, of n obs R followCam delta]
  show "0 \<le> velocity (run (replicate n (keys, obs, R, followCam, delta)) st)"
    and "velocity (run (replicate n (keys, obs, R, followCam, delta)) st) \<le> velocity st"
    by simp_all
qed

lemma freeRoad_0: "freeRoad 0 = initialState"
  by (simp add: freeRoad_def initialState_def initialCar_def planeRadius_def)

lemma mid_road_in_bounds:
  "0 \<le> q \<Longrightarrow> q \<le> 21 \<Longrightarrow> \<not> outOfBounds 80 \<lparr>vx = 0, vy = 0.5, vz = 60 - q\<rparr>"
  by (simp add: outOfBounds_def carRadius_def)

lemma freeRoad_frame:
  assumes "n < 20"
  shows "\<not> rejected (noKeys\<lparr>key_w := True\<rparr>) [] 80 (1/10) (freeRoad n) \<and>
         useFrame (noKeys\<lparr>key_w := True\<rparr>) [] 80 False (1/10) (freeRoad n) = freeRoad (Suc n)"
proof -
  let ?K = "noKeys\<lparr>key_w := True\<rparr>"
  let ?z = "60 - real (n * (n + 1)) / 20"
  let ?car = "initialCar\<lparr>position := \<lparr>vx = 0, vy = 0.5, vz = ?z\<rparr>\<rparr>"
  have c: "carRef (freeRoad n) = Some ?car" by (simp add: freeRoad_def)
  have v: "velocity (freeRoad n) = real n" "yaw (freeRoad n) = 0"
    by (simp_all add: freeRoad_def initialState_def)
  have l: "longitudinal ?K (1/10) (real n) = real (Suc n)"
    using assms by (simp add: longitudinal_def)
  have s: "steering ?K (1/10) (real (Suc n)) 0 = 0"
    by (simp add: steering_def noKeys_def)
  have e: "real (Suc n * (Suc n + 1)) = real (n * (n + 1)) + 2 * real (Suc n)"
    by (simp add: algebra_simps)
  have z: "?z - real (Suc n) / 10 = 60 - real (Suc n * (Suc n + 1)) / 20"
    unfolding e by (simp only: add_divide_distrib)
  have "proposed ?K (1/10) (freeRoad n) ?car = \<lparr>vx = 0, vy = 0.5, vz = ?z - real (Suc n) / 10\<rparr>"
    unfolding proposed_def Let_def v l s
    by (simp add: addScaledVector_def forward_def applyQuaternion_def add_divide_distrib)
  then have p: "proposed ?K (1/10) (freeRoad n) ?car =
        \<lparr>vx = 0, vy = 0.5, vz = 60 - real (Suc n * (Suc n + 1)) / 20\<rparr>"
    unfolding z .
  have "Suc n * (Suc n + 1) \<le> 20 * 21"
    using assms by (intro mult_le_mono) simp_all
  then have "real (Suc n * (Suc n + 1)) \<le> real (20 * 21)"
    by (rule of_nat_mono)
  then have b: "real (Suc n * (Suc n + 1)) / 20 \<le> 21" by simp
  have "\<not> outOfBounds 80 (proposed ?K (1/10) (freeRoad n) ?car)"
    unfolding p by (rule mid_road_in_bounds [OF _ b]) simp
  then have acc: "\<not> rejected ?K [] 80 (1/10) (freeRoad n)"
    by (simp add: rejected_def c)
  have "useFrame ?K [] 80 False (1/10) (freeRoad n) = freeRoad (Suc n)"
    unfolding useFrame_free_camera [OF c] v l s p
    using acc by (simp add: freeRoad_def initialState_def initialCar_def)
  with acc show ?thesis by simp
qed

lemma freeRoad_run:
  "n \<le> 20 \<Longrightarrow>
   noneRejected (replicate n (noKeys\<lparr>key_w := True\<rparr>, [], 80, False, 1/10)) initialState \<and>
   run (replicate n (noKeys\<lparr>key_w := True\<rparr>, [], 80, False, 1/10)) initialState = freeRoad n"
proof (induction n)
  case 0
  show ?case by (simp add: freeRoad_0)
next
  case (Suc n)
  let ?i = "(noKeys\<lparr>key_w := True\<rparr>, [], 80 :: real, False, 1/10 :: real)"
  have split: "replicate (Suc n) ?i = replicate n ?i @ [?i]"
    by (simp add: replicate_append_same)
  from Suc have ih: "noneRejected (replicate n ?i) initialState"
    "run (replicate n ?i) initialState = freeRoad n" and n: "n < 20"
    by simp_all
  show ?case
    unfolding split noneRejected_append run_append
    using ih freeRoad_frame [OF n] by simp
qed

lemma coasting_two_frames:
  "noneRejected (replicate 2 (noKeys, [], 80, False, 1/60)) (initialState\<lparr>velocity := 10\<rparr>)"
proof -
  let ?S = "initialState\<lparr>velocity := 10\<rparr>"
  let ?T = "?S\<lparr>carRef := Some \<lparr>position = \<lparr>vx = 0, vy = 0.5, vz = 60 - 49/300\<rparr>, rotation_y = 0\<rparr>,
               velocity := 49/5, yaw := 0\<rparr>"
  have c: "carRef ?S = Some initialCar" by (simp add: initialState_def)
  have p: "proposed noKeys (1/60) ?S initialCar = \<lparr>vx = 0, vy = 0.5, vz = 60 - 49/300\<rparr>"
    by (simp add: proposed_def noKeys_def initialState_def initialCar_def longitudinal_def
      steering_def forward_def applyQuaternion_def addScaledVector_def Let_def planeRadius_def)
  have r1: "\<not> rejected noKeys [] 80 (1/60) ?S"
    by (simp add: rejected_def c p outOfBounds_def carRadius_def)
  have f1: "useFrame noKeys [] 80 False (1/60) ?S = ?T"
    unfolding useFrame_free_camera [OF c] p
    using r1 by (simp add: longitudinal_def steering_def noKeys_def initialState_def)
  have c2: "carRef ?T = Some \<lparr>position = \<lparr>vx = 0, vy = 0.5, vz = 60 - 49/300\<rparr>, rotation_y = 0\<rparr>"
    by simp
  have r2: "\<not> rejected noKeys [] 80 (1/60) ?T"
    unfolding rejected_def c2 option.case
    by (simp add: proposed_def noKeys_def longitudinal_def steering_def forward_def
      applyQuaternion_def addScaledVector_def Let_def outOfBounds_def carRadius_def)
  show ?thesis
    unfolding numeral_2_eq_2 replicate.simps noneRejected.simps f1
    by (intro conjI r1 r2 TrueI)
qed

text \<open>
  Claim C7 as amended, at concrete inputs: twenty frames on a free road from the initial
  state with \<^verbatim>\<open>w\<close> held (velocity 3 after three frames, 20 after twenty), the rejected
  frame with the obstacle at \<open>(0, 58)\<close>, and two coasting frames from velocity 10.
\<close>

theorem velocity_law_witness:
  "carRef initialState = Some initialCar \<and>
   (key_w (noKeys\<lparr>key_w := True\<rparr>) \<or> ArrowUp (noKeys\<lparr>key_w := True\<rparr>)) \<and>
   velocity initialState = 0 \<and>
   noneRejected (replicate 20 (noKeys\<lparr>key_w := True\<rparr>, [], 80, False, 1/10)) initialState \<and>
   velocity (run (replicate 3 (noKeys\<lparr>key_w := True\<rparr>, [], 80, False, 1/10)) initialState) = 3 \<and>
   velocity (run (replicate 20 (noKeys\<lparr>key_w := True\<rparr>, [], 80, False, 1/10)) initialState) = 20 \<and>
   rejected (noKeys\<lparr>key_w := True\<rparr>) [(0, 58)] 80 (1/10) initialState \<and>
   velocity (useFrame (noKeys\<lparr>key_w := True\<rparr>) [(0, 58)] 80 False (1/10) initialState) = 0 \<and>
   carRef (initialState\<lparr>velocity := 10\<rparr>) = Some initialCar \<and>
   (\<not> key_w noKeys \<and> \<not> ArrowUp noKeys \<and> \<not> key_s noKeys \<and> \<not> ArrowDown noKeys) \<and>
   noneRejected (replicate 2 (noKeys, [], 80, False, 1/60)) (initialState\<lparr>velocity := 10\<rparr>) \<and>
   velocity (run (replicate 2 (noKeys, [], 80, False, 1/60)) (initialState\<lparr>velocity := 10\<rparr>)) =
     10 * 0.98 ^ 2 \<and>
   0 < velocity (run (replicate 2 (noKeys, [], 80, False, 1/60)) (initialState\<lparr>velocity := 10\<rparr>))"
proof -
  let ?W = "noKeys\<lparr>key_w := True\<rparr>"
  let ?S = "initialState\<lparr>velocity := 10\<rparr>"
  have c: "carRef initialState = Some initialCar" by (simp add: initialState_def)
  have c10: "carRef ?S = Some initialCar" by (simp add: initialState_def)
  have f: "key_w ?W \<or> ArrowUp ?W" by simp
  have r: "\<not> key_w noKeys \<and> \<not> ArrowUp noKeys \<and> \<not> key_s noKeys \<and> \<not> ArrowDown noKeys"
    by (simp add: noKeys_def)
  have v0: "velocity initialState = 0" by (simp add: initialState_def)
  have v10: "velocity ?S = 10" by simp
  have free: "noneRejected (replicate 20 (?W, [], 80, False, 1/10)) initialState"
    using freeRoad_run [of 20] by simp
  have "hitsObstacle (proposed ?W (1/10) initialState initialCar) [(0, 58)]"
    by (simp add: proposed_initial_forward hypot_less_iff carRadius_def obstacleRadius_def)
  then have rej: "rejected ?W [(0, 58)] 80 (1/10) initialState"
    by (simp add: rejected_def c del: hitsObstacle.simps)
  note t = velocity_law [OF c, of ?W "[(0, 58)]" 80 "1/10" False 20]
  have 0: "velocity (useFrame ?W [(0, 58)] 80 False (1/10) initialState) = 0"
    using t rej by blast
  note u = velocity_law [OF c, of ?W "[]" 80 "1/10" False 20]
  from u f v0 free
  have a: "\<forall>k\<le>20. velocity (run (replicate k (?W, [], 80, False, 1/10)) initialState) =
      min 20 (real k)"
    by blast
  have 1: "velocity (run (replicate 3 (?W, [], 80, False, 1/10)) initialState) = 3"
    using a [rule_format, of 3] by simp
  have 2: "velocity (run (replicate 20 (?W, [], 80, False, 1/10)) initialState) = 20"
    using a [rule_format, of 20] by simp
  note w = velocity_law [OF c10, of noKeys "[]" 80 "1/60" False 2]
  from w r coasting_two_frames
  have b: "\<forall>k\<le>2. velocity (run (replicate k (noKeys, [], 80, False, 1/60)) ?S) =
      velocity ?S * 0.98 ^ k"
    by blast
  have 3: "velocity (run (replicate 2 (noKeys, [], 80, False, 1/60)) ?S) = 10 * 0.98 ^ 2"
    using b [rule_format, of 2] by (simp add: v10)
  have 4: "0 < velocity (run (replicate 2 (noKeys, [], 80, False, 1/60)) ?S)"
    unfolding 3 by simp
  show ?thesis
    using c f v0 free 1 2 rej 0 c10 r coasting_two_frames 3 4 by blast
qed

lemma steering_left_example:
  "steering (noKeys\<lparr>key_a := True\<rparr>) (1/10)
     (longitudinal (noKeys\<lparr>key_a := True\<rparr>) (1/10) 10) 0 = 3/25"
  by (simp add: steering_def longitudinal_def noKeys_def Let_def)

text \<open>
  Claim C8 as stated fails. The car stands at its initial position with velocity 10,
  \<^verbatim>\<open>a\<close> is held, and an obstacle lies at the car's own position: the motion is
  rejected (position kept, velocity 0), and the yaw has changed from 0 to 0.12.
\<close>

theorem yaw_unchanged_on_rejection_counterexample:
  "hitsObstacle
     (proposed (noKeys\<lparr>key_a := True\<rparr>) (1/10) (initialState\<lparr>velocity := 10\<rparr>) initialCar)
     [(0, 60)] \<and>
   map_option position
     (carRef (useFrame (noKeys\<lparr>key_a := True\<rparr>) [(0, 60)] 80 False (1/10)
        (initialState\<lparr>velocity := 10\<rparr>))) = Some (position initialCar) \<and>
   velocity (useFrame (noKeys\<lparr>key_a := True\<rparr>) [(0, 60)] 80 False (1/10)
        (initialState\<lparr>velocity := 10\<rparr>)) = 0 \<and>
   yaw (initialState\<lparr>velocity := 10\<rparr>) = 0 \<and>
   yaw (useFrame (noKeys\<lparr>key_a := True\<rparr>) [(0, 60)] 80 False (1/10)
        (initialState\<lparr>velocity := 10\<rparr>)) = 3/25 \<and>
   map_option rotation_y
     (carRef (useFrame (noKeys\<lparr>key_a := True\<rparr>) [(0, 60)] 80 False (1/10)
        (initialState\<lparr>velocity := 10\<rparr>))) = Some (3/25)"
proof -
  let ?K = "noKeys\<lparr>key_a := True\<rparr>"
  let ?S = "initialState\<lparr>velocity := 10\<rparr>"
  have c: "carRef ?S = Some initialCar" by (simp add: initialState_def)
  have v: "velocity ?S = 10" "yaw ?S = 0" by (simp_all add: initialState_def)
  have p: "vx (position initialCar) = 0" "vz (position initialCar) = 60"
    by (simp_all add: initialCar_def planeRadius_def)
  have l: "longitudinal ?K (1/10) 10 = 98/10"
    by (simp add: longitudinal_def noKeys_def)
  have "hypot (vx (proposed ?K (1/10) ?S initialCar) - 0)
              (vz (proposed ?K (1/10) ?S initialCar) - 60) = 98/100"
    using proposed_distance [of ?K "1/10" ?S initialCar] by (simp add: p v l)
  then have hit: "hitsObstacle (proposed ?K (1/10) ?S initialCar) [(0, 60)]"
    by (simp add: carRadius_def obstacleRadius_def)
  show ?thesis
    using hit steering_left_example
    by (simp add: useFrame_car [OF c] useFrame_velocity [OF c] useFrame_yaw [OF c] v
        del: hitsObstacle.simps)
qed

text \<open>
  Claim C8, as amended. The frame writes the steered yaw to the ref and to the car's
  \<^verbatim>\<open>rotation.y\<close> before the collision test and whatever its outcome: after every
  frame with the car present both are the result of the steering step. Only the position
  is kept when the motion is rejected.
\<close>

theorem yaw_written_every_frame:
  assumes "carRef st = Some car"
  shows "yaw (useFrame keys obs R followCam delta st) =
           steering keys delta (longitudinal keys delta (velocity st)) (yaw st) \<and>
         map_option rotation_y (carRef (useFrame keys obs R followCam delta st)) =
           Some (steering keys delta (longitudinal keys delta (velocity st)) (yaw st)) \<and>
         (hitsObstacle (proposed keys delta st car) obs \<or> outOfBounds R (proposed keys delta st car)
            \<longrightarrow> map_option position (carRef (useFrame keys obs R followCam delta st)) =
                  Some (position car))"
  using assms by (simp add: useFrame_yaw useFrame_car)

text \<open>
  Claim C8 as amended, at a concrete rejected frame with \<^verbatim>\<open>d\<close> held.
\<close>

theorem yaw_written_every_frame_witness:
  "carRef (initialState\<lparr>velocity := 10\<rparr>) = Some initialCar \<and>
   hitsObstacle
     (proposed (noKeys\<lparr>key_d := True\<rparr>) (1/10) (initialState\<lparr>velocity := 10\<rparr>) initialCar)
     [(0, 60)] \<and>
   yaw (useFrame (noKeys\<lparr>key_d := True\<rparr>) [(0, 60)] 80 False (1/10)
        (initialState\<lparr>velocity := 10\<rparr>)) = - (3/25) \<and>
   map_option rotation_y
     (carRef (useFrame (noKeys\<lparr>key_d := True\<rparr>) [(0, 60)] 80 False (1/10)
        (initialState\<lparr>velocity := 10\<rparr>))) = Some (- (3/25)) \<and>
   map_option position
     (carRef (useFrame (noKeys\<lparr>key_d := True\<rparr>) [(0, 60)] 80 False (1/10)
        (initialState\<lparr>velocity := 10\<rparr>))) = Some (position initialCar)"
proof -
  let ?K = "noKeys\<lparr>key_d := True\<rparr>"
  let ?S = "initialState\<lparr>velocity := 10\<rparr>"
  have c: "carRef ?S = Some initialCar" by (simp add: initialState_def)
  have v: "velocity ?S = 10" "yaw ?S = 0" by (simp_all add: initialState_def)
  have p: "vx (position initialCar) = 0" "vz (position initialCar) = 60"
    by (simp_all add: initialCar_def planeRadius_def)
  have l: "longitudinal ?K (1/10) 10 = 98/10"
    by (simp add: longitudinal_def noKeys_def)
  have s: "steering ?K (1/10) (longitudinal ?K (1/10) 10) 0 = - (3/25)"
    by (simp add: steering_def longitudinal_def noKeys_def Let_def)
  have "hypot (vx (proposed ?K (1/10) ?S initialCar) - 0)
              (vz (proposed ?K (1/10) ?S initialCar) - 60) = 98/100"
    using proposed_distance [of ?K "1/10" ?S initialCar] by (simp add: p v l)
  then have hit: "hitsObstacle (proposed ?K (1/10) ?S initialCar) [(0, 60)]"
    by (simp add: carRadius_def obstacleRadius_def)
  show ?thesis
    using yaw_written_every_frame [OF c, of ?K "[(0, 60)]" 80 False "1/10"] hit
    by (simp add: c v s del: hitsObstacle.simps)
qed

lemma longitudinal_range:
  "0 \<le> delta \<Longrightarrow> - 10 \<le> v \<Longrightarrow> v \<le> 20 \<Longrightarrow>
   - 10 \<le> longitudinal keys delta v \<and> longitudinal keys delta v \<le> 20"
  by (auto simp: longitudinal_def min_def max_def)

lemma useFrame_range:
  assumes "0 \<le> delta" "- 10 \<le> velocity st" "velocity st \<le> 20"
  shows "- 10 \<le> velocity (useFrame keys obs R followCam delta st) \<and>
         velocity (useFrame keys obs R followCam delta st) \<le> 20"
proof (cases "carRef st")
  case None
  then show ?thesis using assms by (simp add: useFrame_absent)
next
  case (Some car)
  show ?thesis
    using longitudinal_range [OF assms, of keys]
    by (simp add: useFrame_velocity [OF Some])
qed

lemma run_range:
  "\<forall>(keys, obs, R, followCam, delta)\<in>set inputs. 0 \<le> delta \<Longrightarrow>
   - 10 \<le> velocity st \<Longrightarrow> velocity st \<le> 20 \<Longrightarrow>
   - 10 \<le> velocity (run inputs st) \<and> velocity (run inputs st) \<le> 20"
proof (induction inputs arbitrary: st)
  case Nil
  then show ?case by simp
next
  case (Cons i inputs)
  obtain keys obs R followCam delta where i: "i = (keys, obs, R, followCam, delta)"
    by (cases i)
  from Cons.prems(1) have d: "0 \<le> delta" by (simp add: i)
  have "- 10 \<le> velocity (useFrame keys obs R followCam delta st) \<and>
         velocity (useFrame keys obs R followCam delta st) \<le> 20"
    using useFrame_range [OF d Cons.prems(2,3)] .
  then show ?case
    using Cons.IH [of "useFrame keys obs R followCam delta st"] Cons.prems(1)
    by (simp add: i)
qed

text \<open>
  Claim C10. If the velocity lies between -10 and 20 before a frame whose
  \<^verbatim>\<open>delta\<close> is not negative, it lies between -10 and 20 after it, whatever the keys,
  the obstacles, the bounds, the camera mode and the position are, and also when the car
  is absent. Hence from velocity 0 every sequence of such frames keeps the velocity
  between -10 and 20.
\<close>

theorem velocity_range_invariant:
  "(0 \<le> delta \<and> - 10 \<le> velocity st \<and> velocity st \<le> 20 \<longrightarrow>
      - 10 \<le> velocity (useFrame keys obs R followCam delta st) \<and>
      velocity (useFrame keys obs R followCam delta st) \<le> 20) \<and>
   ((\<forall>(keys, obs, R, followCam, delta)\<in>set inputs. 0 \<le> delta) \<and> velocity st0 = 0 \<longrightarrow>
      - 10 \<le> velocity (run inputs st0) \<and> velocity (run inputs st0) \<le> 20)"
  using useFrame_range [of delta st keys obs R followCam] run_range [of inputs st0]
  by simp

text \<open>
  Claim C10 at a concrete input: accelerating at the cap leaves the velocity at most 20,
  and a two-frame run from the initial state stays in the range.
\<close>

theorem velocity_range_invariant_witness:
  "0 \<le> (1/10 :: real) \<and>
   - 10 \<le> velocity (initialState\<lparr>velocity := 20\<rparr>) \<and>
   velocity (initialState\<lparr>velocity := 20\<rparr>) \<le> 20 \<and>
   - 10 \<le> velocity (useFrame (noKeys\<lparr>key_w := True\<rparr>) [] 80 False (1/10)
              (initialState\<lparr>velocity := 20\<rparr>)) \<and>
   velocity (useFrame (noKeys\<lparr>key_w := True\<rparr>) [] 80 False (1/10)
              (initialState\<lparr>velocity := 20\<rparr>)) \<le> 20 \<and>
   velocity initialState = 0 \<and>
   - 10 \<le> velocity (run [(noKeys\<lparr>key_w := True\<rparr>, [], 80, False, 1/10),
                          (noKeys\<lparr>key_s := True\<rparr>, [(0, 58)], 80, True, 1/2)] initialState) \<and>
   velocity (run [(noKeys\<lparr>key_w := True\<rparr>, [], 80, False, 1/10),
                  (noKeys\<lparr>key_s := True\<rparr>, [(0, 58)], 80, True, 1/2)] initialState) \<le> 20"
  using velocity_range_invariant [of "1/10" "initialState\<lparr>velocity := 20\<rparr>"
      "noKeys\<lparr>key_w := True\<rparr>" "[]" 80 False
      "[(noKeys\<lparr>key_w := True\<rparr>, [], 80, False, 1/10),
        (noKeys\<lparr>key_s := True\<rparr>, [(0, 58)], 80, True, 1/2)]" initialState]
  by (simp add: initialState_def)

section \<open>Facts about the cluster layout and the cities\<close>

lemma farEnough_iff:
  "farEnough x z minSep positions \<longleftrightarrow>
     (\<forall>p\<in>set positions. minSep \<le> hypot (fst p - x) (snd p - z))"
  by (induction positions) (auto simp: not_less split: if_splits)

lemma hypot_cos_sin: "hypot (cos t * r) (sin t * r) = \<bar>r\<bar>"
proof -
  have "(cos t * r) * (cos t * r) + (sin t * r) * (sin t * r) =
        r * r * ((sin t)\<^sup>2 + (cos t)\<^sup>2)"
    unfolding power2_eq_square by (simp only: distrib_left mult_ac)
  also have "\<dots> = r * r" by simp
  finally show ?thesis by (simp add: hypot_def)
qed

lemma candidate_in_disk:
  assumes "0 \<le> u" "u < 1"
  shows "hypot (cos t * (sqrt u * radius)) (sin t * (sqrt u * radius)) \<le> \<bar>radius\<bar>"
proof -
  have "sqrt u \<le> 1" using assms by simp
  moreover have "0 \<le> sqrt u" using assms by simp
  ultimately have "sqrt u * \<bar>radius\<bar> \<le> 1 * \<bar>radius\<bar>"
    by (intro mult_right_mono) simp_all
  then show ?thesis using assms by (simp add: hypot_cos_sin abs_mult)
qed

lemma loop_unfold:
  "generateClusterPositions_loop count cx cz radius minSep positions attempts g =
     (if length positions < count \<and> attempts < count * 50 then
        generateClusterPositions_loop count cx cz radius minSep
          (if farEnough (cx + cos (g 0 * pi * 2) * (sqrt (g (Suc 0)) * radius))
                (cz + sin (g 0 * pi * 2) * (sqrt (g (Suc 0)) * radius)) minSep positions
           then positions @ [(cx + cos (g 0 * pi * 2) * (sqrt (g (Suc 0)) * radius),
                              cz + sin (g 0 * pi * 2) * (sqrt (g (Suc 0)) * radius))]
           else positions)
          (Suc attempts) (\<lambda>n. g (Suc (Suc n)))
      else (positions, g))"
  by (subst generateClusterPositions_loop.simps) (simp add: Math_random_def Let_def)

text \<open>A property of the accepted points that every accepted candidate keeps.\<close>

lemma loop_invariant:
  assumes step: "\<And>ps u1 u2. I ps \<Longrightarrow> U u1 \<Longrightarrow> U u2 \<Longrightarrow> length ps < count \<Longrightarrow>
      farEnough (cx + cos (u1 * pi * 2) * (sqrt u2 * radius))
                (cz + sin (u1 * pi * 2) * (sqrt u2 * radius)) minSep ps \<Longrightarrow>
      I (ps @ [(cx + cos (u1 * pi * 2) * (sqrt u2 * radius),
                cz + sin (u1 * pi * 2) * (sqrt u2 * radius))])"
  shows "\<forall>n. U (g n) \<Longrightarrow> I positions \<Longrightarrow>
         I (fst (generateClusterPositions_loop count cx cz radius minSep positions attempts g))"
proof (induction "count * 50 - attempts" arbitrary: positions attempts g)
  case 0
  then show ?case by (subst loop_unfold) simp
next
  case (Suc k)
  have g2: "\<forall>n. U (g (Suc (Suc n)))"
    using Suc.prems(1) by simp
  have u: "U (g 0)" "U (g (Suc 0))"
    using Suc.prems(1) by simp_all
  have k: "k = count * 50 - Suc attempts" using Suc.hyps(2) by simp
  show ?case
  proof (cases "length positions < count \<and> attempts < count * 50")
    case False
    then show ?thesis using Suc.prems(2) by (subst loop_unfold) auto
  next
    case True
    show ?thesis
    proof (cases "farEnough (cx + cos (g 0 * pi * 2) * (sqrt (g (Suc 0)) * radius))
                (cz + sin (g 0 * pi * 2) * (sqrt (g (Suc 0)) * radius)) minSep positions")
      case far: True
      have "I (positions @ [(cx + cos (g 0 * pi * 2) * (sqrt (g (Suc 0)) * radius),
                cz + sin (g 0 * pi * 2) * (sqrt (g (Suc 0)) * radius))])"
        using step [OF Suc.prems(2) u _ far] True by simp
      from Suc.hyps(1) [OF k g2 this] show ?thesis
        using True far by (subst loop_unfold) simp
    next
      case far: False
      from Suc.hyps(1) [OF k g2 Suc.prems(2)] show ?thesis
        using True far by (subst loop_unfold) simp
    qed
  qed
qed

lemma loop_length:
  "length positions \<le> count \<Longrightarrow>
   length (fst (generateClusterPositions_loop count cx cz radius minSep positions attempts g)) \<le> count"
  by (rule loop_invariant [where I = "\<lambda>ps. length ps \<le> count" and U = "\<lambda>u. True"]) simp_all

lemma loop_disk:
  "unit_interval g \<Longrightarrow> \<forall>p\<in>set positions. hypot (fst p - cx) (snd p - cz) \<le> \<bar>radius\<bar> \<Longrightarrow>
   \<forall>p\<in>set (fst (generateClusterPositions_loop count cx cz radius minSep positions attempts g)).
     hypot (fst p - cx) (snd p - cz) \<le> \<bar>radius\<bar>"
  by (rule loop_invariant [where I = "\<lambda>ps. \<forall>p\<in>set ps. hypot (fst p - cx) (snd p - cz) \<le> \<bar>radius\<bar>"
        and U = "\<lambda>u. 0 \<le> u \<and> u < 1"])
     (simp_all add: candidate_in_disk unit_interval_def)

lemma loop_separated:
  "sorted_wrt (\<lambda>p q. minSep \<le> hypot (fst p - fst q) (snd p - snd q)) positions \<Longrightarrow>
   sorted_wrt (\<lambda>p q. minSep \<le> hypot (fst p - fst q) (snd p - snd q))
     (fst (generateClusterPositions_loop count cx cz radius minSep positions attempts g))"
  by (rule loop_invariant [where I = "sorted_wrt (\<lambda>p q. minSep \<le> hypot (fst p - fst q) (snd p - snd q))"
        and U = "\<lambda>u. True"])
     (simp_all add: sorted_wrt_append farEnough_iff)

lemma hypot_commute: "hypot (a - b) (c - d) = hypot (b - a) (d - c)"
proof -
  have "(a - b) * (a - b) + (c - d) * (c - d) = (b - a) * (b - a) + (d - c) * (d - c)"
    by (simp add: algebra_simps)
  then show ?thesis by (simp only: hypot_def)
qed

text \<open>
  Claim C2. For every \<open>count\<close>, center, radius and minimum separation, and every random
  source that keeps the contract of \<^verbatim>\<open>Math.random\<close>, \<^verbatim>\<open>generateClusterPositions\<close>
  returns at most \<open>count\<close> points; every point is within \<open>\<bar>radius\<bar>\<close> of the center,
  which is the disk of the given radius when the radius is not negative; and any two
  points at different indices are at least \<open>minSep\<close> apart. The function is total: the
  loop ends after at most \<open>count * 50\<close> attempts.
\<close>

theorem cluster_layout_contract:
  assumes "unit_interval g"
  shows "let ps = fst (generateClusterPositions count cx cz radius minSep g) in
           length ps \<le> count \<and>
           (\<forall>i<length ps. hypot (fst (ps ! i) - cx) (snd (ps ! i) - cz) \<le> \<bar>radius\<bar>) \<and>
           (0 \<le> radius \<longrightarrow>
              (\<forall>i<length ps. hypot (fst (ps ! i) - cx) (snd (ps ! i) - cz) \<le> radius)) \<and>
           (\<forall>i<length ps. \<forall>j<length ps. i \<noteq> j \<longrightarrow>
              minSep \<le> hypot (fst (ps ! i) - fst (ps ! j)) (snd (ps ! i) - snd (ps ! j)))"
proof -
  define ps where "ps = fst (generateClusterPositions count cx cz radius minSep g)"
  have len: "length ps \<le> count"
    unfolding ps_def generateClusterPositions_def by (rule loop_length) simp
  have "\<forall>p\<in>set ps. hypot (fst p - cx) (snd p - cz) \<le> \<bar>radius\<bar>"
    unfolding ps_def generateClusterPositions_def by (rule loop_disk [OF assms]) simp
  then have disk: "\<forall>i<length ps. hypot (fst (ps ! i) - cx) (snd (ps ! i) - cz) \<le> \<bar>radius\<bar>"
    by simp
  have sw: "sorted_wrt (\<lambda>p q. minSep \<le> hypot (fst p - fst q) (snd p - snd q)) ps"
    unfolding ps_def generateClusterPositions_def by (rule loop_separated) simp
  have sep: "minSep \<le> hypot (fst (ps ! i) - fst (ps ! j)) (snd (ps ! i) - snd (ps ! j))"
    if "i < length ps" "j < length ps" "i \<noteq> j" for i j
  proof (cases "i < j")
    case True
    with sw that show ?thesis by (simp add: sorted_wrt_iff_nth_less)
  next
    case False
    then have "j < i" using that by simp
    with sw that have "minSep \<le> hypot (fst (ps ! j) - fst (ps ! i)) (snd (ps ! j) - snd (ps ! i))"
      by (simp add: sorted_wrt_iff_nth_less)
    then show ?thesis by (subst hypot_commute)
  qed
  show ?thesis
    unfolding Let_def ps_def [symmetric] using len disk sep by auto
qed

lemma sqrt_quarter: "sqrt (1/4) = 1/2"
  by (simp add: real_sqrt_divide)

lemma twoPoints_run:
  "fst (generateClusterPositions 2 0 0 20 5 twoPoints) = [(10, 0), (- 10, 0)]"
proof -
  have far: "\<not> hypot 20 0 < 5" by (simp add: hypot_less_iff)
  have t: "twoPoints 0 = 0" "twoPoints (Suc 0) = 1/4" "twoPoints (Suc (Suc 0)) = 1/2"
    "twoPoints (Suc (Suc (Suc 0))) = 1/4"
    by (simp_all add: twoPoints_def)
  show ?thesis
    unfolding generateClusterPositions_def
    apply (subst loop_unfold)
    apply (simp add: t sqrt_quarter)
    apply (subst loop_unfold)
    apply (simp add: t sqrt_quarter far)
    apply (subst loop_unfold)
    apply simp
    done
qed

text \<open>
  Claim C2 at a concrete input: two points requested in a disk of radius 20 with
  separation 5; the run returns \<open>(10, 0)\<close> and \<open>(-10, 0)\<close>.
\<close>

theorem cluster_layout_contract_witness:
  "unit_interval twoPoints \<and>
   fst (generateClusterPositions 2 0 0 20 5 twoPoints) = [(10, 0), (- 10, 0)] \<and>
   length (fst (generateClusterPositions 2 0 0 20 5 twoPoints)) \<le> 2 \<and>
   hypot (fst (fst (generateClusterPositions 2 0 0 20 5 twoPoints) ! 1) - 0)
         (snd (fst (generateClusterPositions 2 0 0 20 5 twoPoints) ! 1) - 0) \<le> 20 \<and>
   5 \<le> hypot (fst (fst (generateClusterPositions 2 0 0 20 5 twoPoints) ! 0) -
               fst (fst (generateClusterPositions 2 0 0 20 5 twoPoints) ! 1))
              (snd (fst (generateClusterPositions 2 0 0 20 5 twoPoints) ! 0) -
               snd (fst (generateClusterPositions 2 0 0 20 5 twoPoints) ! 1))"
proof -
  have u: "unit_interval twoPoints"
    by (simp add: unit_interval_def twoPoints_def)
  have l: "length (fst (generateClusterPositions 2 0 0 20 5 twoPoints)) = 2"
    by (simp add: twoPoints_run)
  from cluster_layout_contract [OF u, of 2 0 0 20 5] l
  have "length (fst (generateClusterPositions 2 0 0 20 5 twoPoints)) \<le> 2"
    and "hypot (fst (fst (generateClusterPositions 2 0 0 20 5 twoPoints) ! 1) - 0)
         (snd (fst (generateClusterPositions 2 0 0 20 5 twoPoints) ! 1) - 0) \<le> 20"
    and "5 \<le> hypot (fst (fst (generateClusterPositions 2 0 0 20 5 twoPoints) ! 0) -
               fst (fst (generateClusterPositions 2 0 0 20 5 twoPoints) ! 1))
              (snd (fst (generateClusterPositions 2 0 0 20 5 twoPoints) ! 0) -
               snd (fst (generateClusterPositions 2 0 0 20 5 twoPoints) ! 1))"
    by (simp_all add: Let_def)
  with u twoPoints_run show ?thesis by blast
qed

lemma generateClusterPositions_length:
  "length (fst (generateClusterPositions count cx cz radius minSep g)) \<le> count"
  unfolding generateClusterPositions_def by (rule loop_length) simp

lemma cityData_map_length:
  "length (fst (cityData_map rbl langs i g)) = length langs"
  by (induction langs arbitrary: i g) (simp_all add: Let_def case_prod_beta)

lemma cityData_map_positions:
  "list_all (\<lambda>c. length (buildingPositions c) \<le> length (repos c))
     (fst (cityData_map rbl langs i g))"
  by (induction langs arbitrary: i g)
    (simp_all add: Let_def case_prod_beta generateClusterPositions_length)


lemma zeroSource_stuck:
  "0 < minSep \<Longrightarrow>
   generateClusterPositions_loop count cx cz radius minSep [(cx, cz)] attempts zeroSource =
     ([(cx, cz)], zeroSource)"
proof (induction "count * 50 - attempts" arbitrary: attempts)
  case 0
  then show ?case by (subst loop_unfold) simp
next
  case (Suc k)
  have k: "k = count * 50 - Suc attempts" using Suc.hyps(2) by simp
  have z: "(\<lambda>n. zeroSource (Suc (Suc n))) = zeroSource" "zeroSource 0 = 0" "zeroSource (Suc 0) = 0"
    by (simp_all add: zeroSource_def)
  have far: "\<not> farEnough cx cz minSep [(cx, cz)]"
    using Suc.prems by (simp add: hypot_def)
  show ?case
    using Suc.hyps(1) [OF k Suc.prems] far
    by (subst loop_unfold) (simp add: z)
qed

lemma zeroSource_cluster:
  "0 < count \<Longrightarrow> 0 < minSep \<Longrightarrow>
   generateClusterPositions count cx cz radius minSep zeroSource = ([(cx, cz)], zeroSource)"
proof -
  assume c: "0 < count" and m: "0 < minSep"
  have z: "(\<lambda>n. zeroSource (Suc (Suc n))) = zeroSource" "zeroSource 0 = 0" "zeroSource (Suc 0) = 0"
    by (simp_all add: zeroSource_def)
  show ?thesis
    unfolding generateClusterPositions_def
    using c by (subst loop_unfold) (simp add: z zeroSource_stuck [OF m])
qed

lemma zeroSource_city:
  "fst (cityData [(''JavaScript'', JsArray [repoA, repoB])] zeroSource) =
     [\<lparr>language = ''JavaScript'', centerX = - 75, centerZ = - 75, clusterRadius = 10,
       repos = [repoA, repoB], buildingPositions = [(- 75, - 75)]\<rparr>]"
proof -
  note c = zeroSource_cluster [unfolded zeroSource_def]
  show ?thesis
    by (simp add: cityData_def Math_random_def zeroSource_def c cornerPositions_def
        planeRadius_def Let_def)
qed


section \<open>Facts about the roads and the obstacles\<close>

lemma roadSegments_length: "length (roadSegments cities) = length cities"
  by (simp add: roadSegments_def)

lemma roadSegments_nth:
  "i < length cities \<Longrightarrow>
   roadSegments cities ! i = segment (cities ! i) (cities ! ((i + 1) mod length cities))"
  by (auto simp: roadSegments_def)

lemma hypot_eq_0_iff: "hypot a b = 0 \<longleftrightarrow> a = 0 \<and> b = 0"
proof -
  have "a * a + b * b = 0 \<longleftrightarrow> a = 0 \<and> b = 0"
    using sum_power2_eq_zero_iff [of a b] by (simp add: power2_eq_square)
  then show ?thesis by (simp add: hypot_def)
qed

lemma hypot_square: "hypot a b * hypot a b = a * a + b * b"
  by (simp add: hypot_def)

lemma unit_vector:
  assumes "hypot a b \<noteq> 0"
  shows "(a / hypot a b) * (a / hypot a b) + (b / hypot a b) * (b / hypot a b) = 1"
proof -
  have "(a / hypot a b) * (a / hypot a b) + (b / hypot a b) * (b / hypot a b) =
        (a * a + b * b) / (hypot a b * hypot a b)"
    by (simp add: add_divide_distrib)
  also have "\<dots> = 1"
  proof -
    have "a * a + b * b \<noteq> 0"
      using assms hypot_square [of a b] by auto
    then show ?thesis by (simp add: hypot_square)
  qed
  finally show ?thesis .
qed

lemma hypot_scaled:
  assumes "u * u + w * w = 1"
  shows "hypot (u * r) (w * r) = \<bar>r\<bar>"
proof -
  have "(u * r) * (u * r) + (w * r) * (w * r) = (u * u + w * w) * (r * r)"
    by (simp add: algebra_simps)
  then show ?thesis using assms by (simp add: hypot_def)
qed

lemma segment_same_center:
  "centerX next = centerX cur \<Longrightarrow> centerZ next = centerZ cur \<Longrightarrow>
   segment cur next = (NaN, NaN, NaN, NaN)"
  by (simp add: segment_def hypot_def js_sub_def)

lemma segment_distinct_centers:
  assumes "centerX next \<noteq> centerX cur \<or> centerZ next \<noteq> centerZ cur"
  shows "segment cur next =
     (Finite (centerX cur +
        (centerX next - centerX cur) / hypot (centerX next - centerX cur) (centerZ next - centerZ cur) *
        (clusterRadius cur + 2)),
      Finite (centerZ cur +
        (centerZ next - centerZ cur) / hypot (centerX next - centerX cur) (centerZ next - centerZ cur) *
        (clusterRadius cur + 2)),
      Finite (centerX next -
        (centerX next - centerX cur) / hypot (centerX next - centerX cur) (centerZ next - centerZ cur) *
        (clusterRadius next + 2)),
      Finite (centerZ next -
        (centerZ next - centerZ cur) / hypot (centerX next - centerX cur) (centerZ next - centerZ cur) *
        (clusterRadius next + 2)))"
proof -
  have "hypot (centerX next - centerX cur) (centerZ next - centerZ cur) \<noteq> 0"
    using assms by (simp add: hypot_eq_0_iff)
  then show ?thesis by (simp add: segment_def Let_def js_sub_def)
qed

text \<open>
  Claim C4, as amended. \<^verbatim>\<open>roadSegments\<close> returns exactly one segment per city, for
  every number of cities: the segment at index \<open>i\<close> joins city \<open>i\<close> to city
  \<open>(i + 1) mod n\<close>, so the last one is the wrap-around pair from the last city to the
  first. The output is empty only for no city at all; a single city is paired with itself.
\<close>

theorem road_segment_count:
  "length (roadSegments cities) = length cities \<and>
   (\<forall>i<length cities.
      roadSegments cities ! i = segment (cities ! i) (cities ! ((i + 1) mod length cities))) \<and>
   (cities \<noteq> [] \<longrightarrow> last (roadSegments cities) = segment (last cities) (hd cities))"
proof (intro conjI allI impI)
  show "length (roadSegments cities) = length cities" by (rule roadSegments_length)
  show "roadSegments cities ! i = segment (cities ! i) (cities ! ((i + 1) mod length cities))"
    if "i < length cities" for i using that by (rule roadSegments_nth)
  show "last (roadSegments cities) = segment (last cities) (hd cities)" if "cities \<noteq> []"
  proof -
    have n: "length cities - 1 < length cities" using that by simp
    have "last (roadSegments cities) = roadSegments cities ! (length cities - 1)"
      using that by (simp add: last_conv_nth roadSegments_length flip: length_greater_0_conv)
    also have "\<dots> = segment (cities ! (length cities - 1))
        (cities ! ((length cities - 1 + 1) mod length cities))"
      by (rule roadSegments_nth [OF n])
    also have "(length cities - 1 + 1) mod length cities = 0"
      using that by simp
    finally show ?thesis using that by (simp add: last_conv_nth hd_conv_nth)
  qed
qed

text \<open>
  Claim C4 as amended, at two cities: two segments, the second from the last city back
  to the first.
\<close>

theorem road_segment_count_witness:
  "length (roadSegments [oneCity, otherCity]) = 2 \<and>
   roadSegments [oneCity, otherCity] ! 0 = segment oneCity otherCity \<and>
   roadSegments [oneCity, otherCity] ! 1 = segment otherCity oneCity \<and>
   [oneCity, otherCity] \<noteq> [] \<and>
   last (roadSegments [oneCity, otherCity]) = segment otherCity oneCity"
proof -
  note t = road_segment_count [of "[oneCity, otherCity]"]
  have 0: "roadSegments [oneCity, otherCity] ! 0 = segment oneCity otherCity"
    using t [THEN conjunct2, THEN conjunct1, rule_format, of 0] by simp
  have 1: "roadSegments [oneCity, otherCity] ! 1 = segment otherCity oneCity"
    using t [THEN conjunct2, THEN conjunct1, rule_format, of 1] by simp
  show ?thesis using t 0 1 by simp
qed

text \<open>
  Claim C4 as stated fails at \<open>n = 1\<close>: for one city the output is not empty, it has one
  segment. The guard of the source is \<^verbatim>\<open>cityData.length === 0\<close>.
\<close>

theorem single_city_road_counterexample:
  "length [oneCity] \<le> 1 \<and> length (roadSegments [oneCity]) = 1 \<and> roadSegments [oneCity] \<noteq> []"
  by (simp add: roadSegments_def)

text \<open>
  Claim C5, as amended. \<^verbatim>\<open>roadSegments\<close> has no guard for a zero distance: when the two
  cities of a pair have the same center, the unit vector is 0/0 and all four coordinates of
  the segment are not-a-number; otherwise all four are finite. A single city is paired
  with itself, so its one segment is all not-a-number.
\<close>

theorem degenerate_segment_is_nan:
  "(\<forall>i<length cities.
      let cur = cities ! i; next = cities ! ((i + 1) mod length cities) in
        if centerX next = centerX cur \<and> centerZ next = centerZ cur
        then roadSegments cities ! i = (NaN, NaN, NaN, NaN)
        else \<exists>x1 z1 x2 z2. roadSegments cities ! i = (Finite x1, Finite z1, Finite x2, Finite z2)) \<and>
   (length cities = 1 \<longrightarrow> roadSegments cities = [(NaN, NaN, NaN, NaN)])"
proof (intro conjI allI impI)
  fix i assume i: "i < length cities"
  show "let cur = cities ! i; next = cities ! ((i + 1) mod length cities) in
        if centerX next = centerX cur \<and> centerZ next = centerZ cur
        then roadSegments cities ! i = (NaN, NaN, NaN, NaN)
        else \<exists>x1 z1 x2 z2. roadSegments cities ! i = (Finite x1, Finite z1, Finite x2, Finite z2)"
    unfolding Let_def roadSegments_nth [OF i]
    using segment_distinct_centers [of "cities ! ((i + 1) mod length cities)" "cities ! i"]
    by (auto simp: segment_same_center)
next
  assume "length cities = 1"
  then obtain c where c: "cities = [c]"
    by (cases cities) simp_all
  show "roadSegments cities = [(NaN, NaN, NaN, NaN)]"
    unfolding c by (simp add: roadSegments_def segment_same_center)
qed

lemma hypot_30_40: "hypot 30 40 = 50"
  unfolding hypot_def by (rule real_sqrt_unique) simp_all

lemma segment_example:
  "segment oneCity otherCity =
     (Finite (- (308/5)), Finite (- (294/5)), Finite (- (236/5)), Finite (- (198/5)))"
  by (simp add: segment_def oneCity_def otherCity_def hypot_30_40 js_sub_def)

text \<open>
  Claim C5 as amended, at concrete inputs: a pair with different centers (the centers are
  50 apart) and the single city.
\<close>

theorem degenerate_segment_is_nan_witness:
  "(0::nat) < length [oneCity, otherCity] \<and>
   roadSegments [oneCity, otherCity] ! 0 =
     (Finite (- (308/5)), Finite (- (294/5)), Finite (- (236/5)), Finite (- (198/5))) \<and>
   (\<exists>x1 z1 x2 z2. roadSegments [oneCity, otherCity] ! 0 = (Finite x1, Finite z1, Finite x2, Finite z2)) \<and>
   length [oneCity] = 1 \<and>
   roadSegments [oneCity] = [(NaN, NaN, NaN, NaN)]"
proof -
  have d: "centerX otherCity \<noteq> centerX oneCity"
    by (simp add: oneCity_def otherCity_def)
  have e: "roadSegments [oneCity, otherCity] ! 0 =
     (Finite (- (308/5)), Finite (- (294/5)), Finite (- (236/5)), Finite (- (198/5)))"
    by (simp add: roadSegments_def segment_example)
  from degenerate_segment_is_nan [of "[oneCity, otherCity]"] d
  have 1: "\<exists>x1 z1 x2 z2. roadSegments [oneCity, otherCity] ! 0 = (Finite x1, Finite z1, Finite x2, Finite z2)"
    by (auto simp: Let_def)
  from degenerate_segment_is_nan [of "[oneCity]"]
  have 2: "roadSegments [oneCity] = [(NaN, NaN, NaN, NaN)]" by simp
  show ?thesis using e 1 2 by simp
qed

text \<open>
  Claim C5 as stated fails. For the cities that \<^verbatim>\<open>cityData\<close> builds from a single
  language group the one segment has the coordinates not-a-number: nothing treats the unit
  vector as zero.
\<close>

theorem single_language_road_is_nan_counterexample:
  "length (fst (cityData [(''JavaScript'', JsArray [repoA, repoB])] zeroSource)) = 1 \<and>
   roadSegments (fst (cityData [(''JavaScript'', JsArray [repoA, repoB])] zeroSource)) =
     [(NaN, NaN, NaN, NaN)]"
  by (simp add: zeroSource_city roadSegments_def segment_same_center)

text \<open>
  Claim C6. For a pair of cities with different centers, the four coordinates of the
  segment are finite; its start is at distance \<open>\<bar>clusterRadius + 2\<bar>\<close> from the center of the
  first city and its end at distance \<open>\<bar>clusterRadius + 2\<bar>\<close> from the center of the second,
  which is \<open>clusterRadius + 2\<close> for every radius from -2 up (the radii that
  \<^verbatim>\<open>cityData\<close> draws are at least 10). Both ends lie on the line through the two
  centers (the cross products with the direction vanish); the start is advanced from the
  first center towards the second, the end is retreated from the second center towards
  the first (the scalar products with the direction). Arithmetic is exact here.
\<close>

theorem segment_endpoints:
  assumes "i < length cities"
    and "centerX (cities ! ((i + 1) mod length cities)) \<noteq> centerX (cities ! i) \<or>
         centerZ (cities ! ((i + 1) mod length cities)) \<noteq> centerZ (cities ! i)"
  shows "let cur = cities ! i; next = cities ! ((i + 1) mod length cities);
             dx = centerX next - centerX cur; dz = centerZ next - centerZ cur
         in \<exists>x1 z1 x2 z2.
              roadSegments cities ! i = (Finite x1, Finite z1, Finite x2, Finite z2) \<and>
              hypot (x1 - centerX cur) (z1 - centerZ cur) = \<bar>clusterRadius cur + 2\<bar> \<and>
              hypot (x2 - centerX next) (z2 - centerZ next) = \<bar>clusterRadius next + 2\<bar> \<and>
              (- 2 \<le> clusterRadius cur \<longrightarrow>
                 hypot (x1 - centerX cur) (z1 - centerZ cur) = clusterRadius cur + 2) \<and>
              (- 2 \<le> clusterRadius next \<longrightarrow>
                 hypot (x2 - centerX next) (z2 - centerZ next) = clusterRadius next + 2) \<and>
              (x1 - centerX cur) * dz = (z1 - centerZ cur) * dx \<and>
              (x2 - centerX next) * dz = (z2 - centerZ next) * dx \<and>
              (x1 - centerX cur) * dx + (z1 - centerZ cur) * dz =
                (clusterRadius cur + 2) * hypot dx dz \<and>
              (centerX next - x2) * dx + (centerZ next - z2) * dz =
                (clusterRadius next + 2) * hypot dx dz"
proof -
  define cur where "cur = cities ! i"
  define nxt where "nxt = cities ! ((i + 1) mod length cities)"
  define dx where "dx = centerX nxt - centerX cur"
  define dz where "dz = centerZ nxt - centerZ cur"
  define dist where "dist = hypot dx dz"
  define x1 where "x1 = centerX cur + dx / dist * (clusterRadius cur + 2)"
  define z1 where "z1 = centerZ cur + dz / dist * (clusterRadius cur + 2)"
  define x2 where "x2 = centerX nxt - dx / dist * (clusterRadius nxt + 2)"
  define z2 where "z2 = centerZ nxt - dz / dist * (clusterRadius nxt + 2)"
  have distinct: "centerX nxt \<noteq> centerX cur \<or> centerZ nxt \<noteq> centerZ cur"
    using assms(2) by (simp add: cur_def nxt_def)
  have nz: "dist \<noteq> 0"
    using distinct by (simp add: dist_def dx_def dz_def hypot_eq_0_iff)
  have seg: "roadSegments cities ! i = (Finite x1, Finite z1, Finite x2, Finite z2)"
    unfolding roadSegments_nth [OF assms(1)]
    using segment_distinct_centers [OF distinct]
    by (simp add: cur_def nxt_def x1_def z1_def x2_def z2_def dx_def dz_def dist_def)
  have unit: "(dx / dist) * (dx / dist) + (dz / dist) * (dz / dist) = 1"
    unfolding dist_def using nz [unfolded dist_def] by (rule unit_vector)
  have sq: "dx * dx + dz * dz = dist * dist"
    by (simp add: dist_def hypot_square)
  have h1: "hypot (x1 - centerX cur) (z1 - centerZ cur) = \<bar>clusterRadius cur + 2\<bar>"
    using hypot_scaled [OF unit, of "clusterRadius cur + 2"] by (simp add: x1_def z1_def)
  have e: "x2 - centerX nxt = dx / dist * (- (clusterRadius nxt + 2))"
    "z2 - centerZ nxt = dz / dist * (- (clusterRadius nxt + 2))"
    by (simp_all add: x2_def z2_def algebra_simps flip: minus_divide_left)
  have "hypot (x2 - centerX nxt) (z2 - centerZ nxt) = \<bar>- (clusterRadius nxt + 2)\<bar>"
    unfolding e by (rule hypot_scaled [OF unit])
  then have h2: "hypot (x2 - centerX nxt) (z2 - centerZ nxt) = \<bar>clusterRadius nxt + 2\<bar>"
    by simp
  have l1: "(x1 - centerX cur) * dz = (z1 - centerZ cur) * dx"
    by (simp add: x1_def z1_def)
  have l2: "(x2 - centerX nxt) * dz = (z2 - centerZ nxt) * dx"
    by (simp add: x2_def z2_def)
  have "(x1 - centerX cur) * dx + (z1 - centerZ cur) * dz =
        (clusterRadius cur + 2) * ((dx * dx + dz * dz) / dist)"
    by (simp add: x1_def z1_def algebra_simps add_divide_distrib)
  also have "\<dots> = (clusterRadius cur + 2) * dist"
    using nz by (simp add: sq)
  finally have d1: "(x1 - centerX cur) * dx + (z1 - centerZ cur) * dz =
        (clusterRadius cur + 2) * dist" .
  have "(centerX nxt - x2) * dx + (centerZ nxt - z2) * dz =
        (clusterRadius nxt + 2) * ((dx * dx + dz * dz) / dist)"
    by (simp add: x2_def z2_def algebra_simps add_divide_distrib)
  also have "\<dots> = (clusterRadius nxt + 2) * dist"
    using nz by (simp add: sq)
  finally have d2: "(centerX nxt - x2) * dx + (centerZ nxt - z2) * dz =
        (clusterRadius nxt + 2) * dist" .
  have a1: "- 2 \<le> clusterRadius cur \<longrightarrow>
      hypot (x1 - centerX cur) (z1 - centerZ cur) = clusterRadius cur + 2"
    using h1 by simp
  have a2: "- 2 \<le> clusterRadius nxt \<longrightarrow>
      hypot (x2 - centerX nxt) (z2 - centerZ nxt) = clusterRadius nxt + 2"
    using h2 by simp
  show ?thesis
    unfolding Let_def cur_def [symmetric] nxt_def [symmetric] dx_def [symmetric]
      dz_def [symmetric] dist_def [symmetric]
    using seg h1 h2 a1 a2 l1 l2 d1 d2 by blast
qed

text \<open>
  Claim C6 at a concrete pair: centers 50 apart, radii 12 and 10; the ends are 14 and 12
  from their centers.
\<close>

theorem segment_endpoints_witness:
  "(0::nat) < length [oneCity, otherCity] \<and>
   centerX otherCity \<noteq> centerX oneCity \<and>
   roadSegments [oneCity, otherCity] ! 0 =
     (Finite (- (308/5)), Finite (- (294/5)), Finite (- (236/5)), Finite (- (198/5))) \<and>
   hypot (- (308/5) - centerX oneCity) (- (294/5) - centerZ oneCity) = clusterRadius oneCity + 2 \<and>
   hypot (- (236/5) - centerX otherCity) (- (198/5) - centerZ otherCity) =
     clusterRadius otherCity + 2"
proof -
  have i: "0 < length [oneCity, otherCity]" by simp
  have d: "centerX otherCity \<noteq> centerX oneCity"
    by (simp add: oneCity_def otherCity_def)
  have r: "- 2 \<le> clusterRadius oneCity" "- 2 \<le> clusterRadius otherCity"
    by (simp_all add: oneCity_def otherCity_def)
  have e: "roadSegments [oneCity, otherCity] ! 0 =
     (Finite (- (308/5)), Finite (- (294/5)), Finite (- (236/5)), Finite (- (198/5)))"
    by (simp add: roadSegments_def segment_example)
  from segment_endpoints [OF i, unfolded Let_def] d
  obtain x1 z1 x2 z2 where
    s: "roadSegments [oneCity, otherCity] ! 0 = (Finite x1, Finite z1, Finite x2, Finite z2)"
    and h1: "- 2 \<le> clusterRadius oneCity \<longrightarrow>
      hypot (x1 - centerX oneCity) (z1 - centerZ oneCity) = clusterRadius oneCity + 2"
    and h2: "- 2 \<le> clusterRadius otherCity \<longrightarrow>
      hypot (x2 - centerX otherCity) (z2 - centerZ otherCity) = clusterRadius otherCity + 2"
    by auto
  from s e have "x1 = - (308/5)" "z1 = - (294/5)" "x2 = - (236/5)" "z2 = - (198/5)"
    by simp_all
  with h1 h2 r i d e show ?thesis by simp
qed

lemma cityTrees_length: "length (fst (cityTrees city ps g)) = length ps"
  by (induction ps arbitrary: g) (simp_all add: Let_def case_prod_beta)

lemma obstacles_forEach_lengths:
  "length (obstacleCenters (fst (obstacles_forEach cities obs trees g))) =
     length obs + 2 * sum_list (map (\<lambda>c. length (buildingPositions c)) cities) \<and>
   length (treePositions (fst (obstacles_forEach cities obs trees g))) =
     length trees + sum_list (map (\<lambda>c. length (buildingPositions c)) cities)"
  by (induction cities arbitrary: obs trees g)
    (simp_all add: Let_def case_prod_beta cityTrees_length)

lemma obstacles_forEach_keeps:
  "set obs \<subseteq> set (obstacleCenters (fst (obstacles_forEach cities obs trees g)))"
proof (induction cities arbitrary: obs trees g)
  case Nil
  show ?case by simp
next
  case (Cons city cities)
  have "set obs \<subseteq> set (obs @ buildingPositions city @
          fst (cityTrees city (buildingPositions city) g))"
    by auto
  also have "\<dots> \<subseteq> set (obstacleCenters (fst (obstacles_forEach (city # cities) obs trees g)))"
    using Cons.IH [of "obs @ buildingPositions city @ fst (cityTrees city (buildingPositions city) g)"]
    by (simp add: Let_def case_prod_beta)
  finally show ?case .
qed

lemma obstacles_forEach_buildings:
  "c \<in> set cities \<Longrightarrow>
   set (buildingPositions c) \<subseteq> set (obstacleCenters (fst (obstacles_forEach cities obs trees g)))"
proof (induction cities arbitrary: obs trees g)
  case Nil
  then show ?case by simp
next
  case (Cons city cities)
  let ?ts = "fst (cityTrees city (buildingPositions city) g)"
  let ?g1 = "snd (cityTrees city (buildingPositions city) g)"
  have u: "fst (obstacles_forEach (city # cities) obs trees g) =
        fst (obstacles_forEach cities ((obs @ buildingPositions city) @ ?ts) (trees @ ?ts) ?g1)"
    by (simp add: Let_def case_prod_beta)
  show ?case
  proof (cases "c = city")
    case True
    have "set (buildingPositions c) \<subseteq> set ((obs @ buildingPositions city) @ ?ts)"
      using True by auto
    also have "\<dots> \<subseteq> set (obstacleCenters (fst (obstacles_forEach cities
          ((obs @ buildingPositions city) @ ?ts) (trees @ ?ts) ?g1)))"
      by (rule obstacles_forEach_keeps)
    finally show ?thesis unfolding u .
  next
    case False
    then have "c \<in> set cities" using Cons.prems by simp
    from Cons.IH [OF this] show ?thesis unfolding u .
  qed
qed

lemma obstacles_forEach_trees:
  "set trees \<subseteq> set obs \<Longrightarrow>
   set (treePositions (fst (obstacles_forEach cities obs trees g))) \<subseteq>
   set (obstacleCenters (fst (obstacles_forEach cities obs trees g)))"
proof (induction cities arbitrary: obs trees g)
  case Nil
  then show ?case by simp
next
  case (Cons city cities)
  let ?ts = "fst (cityTrees city (buildingPositions city) g)"
  have "set (trees @ ?ts) \<subseteq> set ((obs @ buildingPositions city) @ ?ts)"
    using Cons.prems by auto
  from Cons.IH [OF this] show ?case
    by (simp add: Let_def case_prod_beta)
qed

lemma sum_list_const:
  "list_all (\<lambda>c. f c = (k::nat)) cs \<Longrightarrow> sum_list (map f cs) = k * length cs"
  by (induction cs) simp_all

lemma obstacles_forEach_count:
  "count_list (obstacleCenters (fst (obstacles_forEach cities obs trees g))) x +
     count_list trees x =
   count_list obs x + count_list (concat (map buildingPositions cities)) x +
     count_list (treePositions (fst (obstacles_forEach cities obs trees g))) x"
proof (induction cities arbitrary: obs trees g)
  case Nil
  show ?case by simp
next
  case (Cons city cities)
  let ?ts = "fst (cityTrees city (buildingPositions city) g)"
  let ?g1 = "snd (cityTrees city (buildingPositions city) g)"
  have u: "fst (obstacles_forEach (city # cities) obs trees g) =
        fst (obstacles_forEach cities ((obs @ buildingPositions city) @ ?ts) (trees @ ?ts) ?g1)"
    by (simp add: Let_def case_prod_beta)
  from Cons.IH [of "(obs @ buildingPositions city) @ ?ts" "trees @ ?ts" ?g1]
  show ?case unfolding u by simp
qed

lemma obstacles_le_repos:
  assumes "list_all (\<lambda>c. length (buildingPositions c) \<le> length (repos c)) cities"
  shows "sum_list (map (\<lambda>c. length (buildingPositions c)) cities) \<le>
         sum_list (map (\<lambda>c. length (repos c)) cities)"
  using assms by (induction cities) auto

lemma cityData_map_repos:
  "map repos (fst (cityData_map rbl langs i g)) =
     map (\<lambda>lang. case map_of rbl lang of Some (JsArray a) \<Rightarrow> a | _ \<Rightarrow> []) langs"
  by (induction langs arbitrary: i g) (simp_all add: Let_def case_prod_beta)

lemma zeroSource_cluster_any:
  "0 < minSep \<Longrightarrow>
   generateClusterPositions count cx cz radius minSep zeroSource =
     (if count = 0 then [] else [(cx, cz)], zeroSource)"
proof (cases "count = 0")
  case True
  then show ?thesis
    unfolding generateClusterPositions_def by (subst loop_unfold) simp
next
  case False
  assume "0 < minSep"
  with False show ?thesis by (simp add: zeroSource_cluster)
qed

lemma zeroSource_shift:
  "(\<lambda>n. zeroSource (Suc n)) = zeroSource"
  "(\<lambda>n. zeroSource (Suc (Suc n))) = zeroSource"
  "(\<lambda>n. zeroSource (Suc (Suc (Suc n)))) = zeroSource"
  by (simp_all add: zeroSource_def)

lemma zeroSource_cityData_map:
  "snd (cityData_map rbl langs i zeroSource) = zeroSource \<and>
   list_all (\<lambda>c. length (buildingPositions c) = min 1 (length (repos c)))
     (fst (cityData_map rbl langs i zeroSource))"
proof (induction langs arbitrary: i)
  case Nil
  show ?case by simp
next
  case (Cons lang langs)
  show ?case
    using Cons.IH [of "Suc i"]
    by (simp add: Let_def case_prod_beta Math_random_def zeroSource_shift zeroSource_cluster_any
        min_def Suc_le_eq)
qed

lemma cityData_repos_three:
  assumes "\<forall>(k, v)\<in>set rbl. \<exists>a. v = JsArray a \<and> length a = 3"
  shows "list_all (\<lambda>c. length (repos c) = 3) (fst (cityData rbl g))"
proof -
  have look: "length (case map_of rbl lang of Some (JsArray a) \<Rightarrow> a | _ \<Rightarrow> []) = 3"
    if "lang \<in> set (map fst rbl)" for lang
  proof -
    from that obtain v where v: "map_of rbl lang = Some v"
      by (cases "map_of rbl lang") (auto simp: map_of_eq_None_iff)
    then have "(lang, v) \<in> set rbl" by (rule map_of_SomeD)
    with assms obtain a where "v = JsArray a" "length a = 3" by auto
    with v show ?thesis by simp
  qed
  have "list_all (\<lambda>r. length r = 3) (map repos (fst (cityData rbl g)))"
    unfolding cityData_def cityData_map_repos
    using look by (simp add: list_all_iff)
  then show ?thesis by (simp add: list_all_iff)
qed

lemma eightGroups_length: "length (fst (cityData eightGroups zeroSource)) = 8"
  unfolding cityData_def cityData_map_length by (simp add: eightGroups_def)

lemma eightGroups_source: "snd (cityData eightGroups zeroSource) = zeroSource"
  by (simp add: cityData_def zeroSource_cityData_map)

lemma eightGroups_repos:
  "list_all (\<lambda>c. length (repos c) = 3) (fst (cityData eightGroups zeroSource))"
  by (rule cityData_repos_three) (simp add: eightGroups_def)

lemma eightGroups_buildings:
  "list_all (\<lambda>c. length (buildingPositions c) = 1) (fst (cityData eightGroups zeroSource))"
proof -
  have m: "list_all (\<lambda>c. length (buildingPositions c) = min 1 (length (repos c)))
     (fst (cityData eightGroups zeroSource))"
    unfolding cityData_def by (rule zeroSource_cityData_map [THEN conjunct2])
  have "length (buildingPositions c) = 1"
    if c: "c \<in> set (fst (cityData eightGroups zeroSource))" for c
  proof -
    from m c have a: "length (buildingPositions c) = min 1 (length (repos c))"
      unfolding list_all_iff by (rule bspec)
    from eightGroups_repos c have b: "length (repos c) = 3"
      unfolding list_all_iff by (rule bspec)
    show ?thesis unfolding a b by simp
  qed
  then show ?thesis
    unfolding list_all_iff by (rule ballI)
qed

text \<open>
  Claim C9 as stated fails. \<^verbatim>\<open>cityData\<close> builds 8 cities of 3 repos each from eight
  groups; with the random source that always returns 0 each city has one building
  position, and the obstacles derived from them are 16 (8 buildings and 8 trees), not 48.
\<close>

theorem three_repos_fewer_obstacles_counterexample:
  "unit_interval zeroSource \<and>
   length (fst (cityData eightGroups zeroSource)) = 8 \<and>
   list_all (\<lambda>c. length (repos c) = 3) (fst (cityData eightGroups zeroSource)) \<and>
   length (obstacleCenters
     (fst (deriveObstacles (fst (cityData eightGroups zeroSource))
        (snd (cityData eightGroups zeroSource))))) = 16 \<and>
   length (treePositions
     (fst (deriveObstacles (fst (cityData eightGroups zeroSource))
        (snd (cityData eightGroups zeroSource))))) = 8"
proof -
  have u: "unit_interval zeroSource" by (simp add: unit_interval_def zeroSource_def)
  have "sum_list (map (\<lambda>c. length (buildingPositions c)) (fst (cityData eightGroups zeroSource))) = 8"
    using sum_list_const [OF eightGroups_buildings] by (simp add: eightGroups_length)
  with obstacles_forEach_lengths [of "fst (cityData eightGroups zeroSource)" "[]" "[]"
      "snd (cityData eightGroups zeroSource)"]
  have "length (obstacleCenters
     (fst (deriveObstacles (fst (cityData eightGroups zeroSource))
        (snd (cityData eightGroups zeroSource))))) = 16"
    and "length (treePositions
     (fst (deriveObstacles (fst (cityData eightGroups zeroSource))
        (snd (cityData eightGroups zeroSource))))) = 8"
    by (simp_all add: deriveObstacles_def)
  with u eightGroups_length eightGroups_repos show ?thesis by blast
qed

text \<open>
  Claim C9, as amended. \<^verbatim>\<open>obstacleCenters\<close> has, for every city, its building positions
  and one tree per building position, and \<^verbatim>\<open>treePositions\<close> has the trees: the number
  of obstacles is twice the total number of building positions, the number of trees is
  that total, and every point occurs among the obstacles as often as among the building
  positions and the trees together. Hence 8 cities with 3 building positions each give 48
  obstacles, 24 of them trees. 8 cities with 3 repos each give at most 48, also when
  \<^verbatim>\<open>cityData\<close> built them, and fewer when a city has fewer building positions than
  repos.
\<close>

theorem obstacle_count:
  "(let r = fst (deriveObstacles cities g);
        total = sum_list (map (\<lambda>c. length (buildingPositions c)) cities)
    in length (obstacleCenters r) = 2 * total \<and>
       length (treePositions r) = total \<and>
       (\<forall>x. count_list (obstacleCenters r) x =
              count_list (concat (map buildingPositions cities)) x +
              count_list (treePositions r) x) \<and>
       (\<forall>c\<in>set cities. set (buildingPositions c) \<subseteq> set (obstacleCenters r)) \<and>
       set (treePositions r) \<subseteq> set (obstacleCenters r) \<and>
       (length cities = 8 \<and> list_all (\<lambda>c. length (buildingPositions c) = 3) cities
          \<longrightarrow> length (obstacleCenters r) = 48 \<and> length (treePositions r) = 24) \<and>
       (length cities = 8 \<and>
        list_all (\<lambda>c. length (repos c) = 3 \<and> length (buildingPositions c) \<le> length (repos c))
          cities
          \<longrightarrow> length (obstacleCenters r) \<le> 48)) \<and>
   (length reposByLanguage = 8 \<and>
    list_all (\<lambda>c. length (repos c) = 3) (fst (cityData reposByLanguage g0))
      \<longrightarrow> length (obstacleCenters
                  (fst (deriveObstacles (fst (cityData reposByLanguage g0)) g))) \<le> 48)"
proof -
  have main: "length (obstacleCenters (fst (deriveObstacles cs h))) =
          2 * sum_list (map (\<lambda>c. length (buildingPositions c)) cs) \<and>
        length (treePositions (fst (deriveObstacles cs h))) =
          sum_list (map (\<lambda>c. length (buildingPositions c)) cs)" for cs h
    using obstacles_forEach_lengths [of cs "[]" "[]" h]
    by (simp add: deriveObstacles_def)
  have le48: "length (obstacleCenters (fst (deriveObstacles cs h))) \<le> 48"
    if "length cs = 8"
      and "list_all (\<lambda>c. length (repos c) = 3 \<and> length (buildingPositions c) \<le> length (repos c)) cs"
    for cs h
  proof -
    have "list_all (\<lambda>c. length (buildingPositions c) \<le> length (repos c)) cs"
      and r3: "list_all (\<lambda>c. length (repos c) = 3) cs"
      using that(2) by (auto simp: list_all_iff)
    from obstacles_le_repos [OF this(1)] sum_list_const [OF r3]
    have "sum_list (map (\<lambda>c. length (buildingPositions c)) cs) \<le> 24"
      using that(1) by simp
    then show ?thesis using main [of cs h] by simp
  qed
  define r where "r = fst (deriveObstacles cities g)"
  define total where "total = sum_list (map (\<lambda>c. length (buildingPositions c)) cities)"
  have len: "length (obstacleCenters r) = 2 * total" "length (treePositions r) = total"
    using main [of cities g] by (simp_all add: r_def total_def)
  have cnt: "\<forall>x. count_list (obstacleCenters r) x =
              count_list (concat (map buildingPositions cities)) x +
              count_list (treePositions r) x"
    using obstacles_forEach_count [of cities "[]" "[]" g]
    by (simp add: r_def deriveObstacles_def)
  have b: "\<forall>c\<in>set cities. set (buildingPositions c) \<subseteq> set (obstacleCenters r)"
    by (simp add: r_def deriveObstacles_def obstacles_forEach_buildings)
  have t: "set (treePositions r) \<subseteq> set (obstacleCenters r)"
    unfolding r_def deriveObstacles_def by (rule obstacles_forEach_trees) simp
  have e: "length (obstacleCenters r) = 48 \<and> length (treePositions r) = 24"
    if "length cities = 8" and "list_all (\<lambda>c. length (buildingPositions c) = 3) cities"
  proof -
    from sum_list_const [OF that(2)] have "total = 24"
      using that(1) by (simp add: total_def)
    then show ?thesis using len by simp
  qed
  have f: "length (obstacleCenters r) \<le> 48"
    if "length cities = 8"
      and "list_all (\<lambda>c. length (repos c) = 3 \<and> length (buildingPositions c) \<le> length (repos c)) cities"
    unfolding r_def using that by (rule le48)
  have first: "let r = fst (deriveObstacles cities g);
        total = sum_list (map (\<lambda>c. length (buildingPositions c)) cities)
    in length (obstacleCenters r) = 2 * total \<and>
       length (treePositions r) = total \<and>
       (\<forall>x. count_list (obstacleCenters r) x =
              count_list (concat (map buildingPositions cities)) x +
              count_list (treePositions r) x) \<and>
       (\<forall>c\<in>set cities. set (buildingPositions c) \<subseteq> set (obstacleCenters r)) \<and>
       set (treePositions r) \<subseteq> set (obstacleCenters r) \<and>
       (length cities = 8 \<and> list_all (\<lambda>c. length (buildingPositions c) = 3) cities
          \<longrightarrow> length (obstacleCenters r) = 48 \<and> length (treePositions r) = 24) \<and>
       (length cities = 8 \<and>
        list_all (\<lambda>c. length (repos c) = 3 \<and> length (buildingPositions c) \<le> length (repos c))
          cities
          \<longrightarrow> length (obstacleCenters r) \<le> 48)"
    unfolding Let_def r_def [symmetric] total_def [symmetric]
    using len cnt b t e f by blast
  have second: "length (obstacleCenters
                  (fst (deriveObstacles (fst (cityData reposByLanguage g0)) g))) \<le> 48"
    if "length reposByLanguage = 8"
      and "list_all (\<lambda>c. length (repos c) = 3) (fst (cityData reposByLanguage g0))"
  proof (rule le48)
    show "length (fst (cityData reposByLanguage g0)) = 8"
      using that(1) by (simp add: cityData_def cityData_map_length)
    have "list_all (\<lambda>c. length (buildingPositions c) \<le> length (repos c))
        (fst (cityData reposByLanguage g0))"
      by (simp add: cityData_def cityData_map_positions)
    with that(2)
    show "list_all (\<lambda>c. length (repos c) = 3 \<and> length (buildingPositions c) \<le> length (repos c))
        (fst (cityData reposByLanguage g0))"
      by (simp add: list_all_iff)
  qed
  show ?thesis by (rule conjI [OF first]) (use second in blast)
qed

text \<open>
  Claim C9 as amended, at eight concrete cities with three repos and three building
  positions each, and at the eight cities that \<^verbatim>\<open>cityData\<close> builds from eight groups.
\<close>

theorem obstacle_count_witness:
  "length eightCities = 8 \<and>
   list_all (\<lambda>c. length (buildingPositions c) = 3) eightCities \<and>
   list_all (\<lambda>c. length (repos c) = 3 \<and> length (buildingPositions c) \<le> length (repos c))
     eightCities \<and>
   length (obstacleCenters (fst (deriveObstacles eightCities zeroSource))) = 48 \<and>
   length (treePositions (fst (deriveObstacles eightCities zeroSource))) = 24 \<and>
   length eightGroups = 8 \<and>
   list_all (\<lambda>c. length (repos c) = 3) (fst (cityData eightGroups zeroSource)) \<and>
   length (obstacleCenters
     (fst (deriveObstacles (fst (cityData eightGroups zeroSource)) zeroSource))) \<le> 48"
proof -
  have l: "length eightCities = 8"
    by (simp add: eightCities_def cornerPositions_def)
  have a: "list_all (\<lambda>c. length (buildingPositions c) = 3) eightCities"
    by (simp add: eightCities_def cornerPositions_def)
  have a': "list_all (\<lambda>c. length (repos c) = 3 \<and> length (buildingPositions c) \<le> length (repos c))
     eightCities"
    by (simp add: eightCities_def cornerPositions_def)
  have g: "length eightGroups = 8" by (simp add: eightGroups_def)
  note t = obstacle_count [of eightCities zeroSource eightGroups zeroSource, unfolded Let_def]
  from t l a
  have 1: "length (obstacleCenters (fst (deriveObstacles eightCities zeroSource))) = 48"
    "length (treePositions (fst (deriveObstacles eightCities zeroSource))) = 24"
    by blast+
  note s = obstacle_count [of eightCities zeroSource eightGroups zeroSource,
      THEN conjunct2]
  from s g eightGroups_repos
  have 2: "length (obstacleCenters
     (fst (deriveObstacles (fst (cityData eightGroups zeroSource)) zeroSource))) \<le> 48"
    by blast
  show ?thesis using l a a' 1 g eightGroups_repos 2 by blast
qed

end
